theory Spec2Isabelle
  imports Main "HOL-Library.Char_ord" "HOL-Library.List_Lexorder"
begin

section \<open>Text\<close>

text \<open>
  A Python \<^verbatim>\<open>str\<close> is a sequence of code points. The model is \<^typ>\<open>string\<close>, one
  \<^typ>\<open>char\<close> per code point, so it covers the texts whose code points lie in
  U+0000 .. U+00FF. The character classes below are the ones Python's \<^verbatim>\<open>re\<close> and
  \<^verbatim>\<open>str\<close> methods use on that range: \<^verbatim>\<open>\s\<close> and \<^verbatim>\<open>str.strip\<close> test
  \<^verbatim>\<open>str.isspace\<close>, \<^verbatim>\<open>\w\<close> tests \<^verbatim>\<open>str.isalnum\<close> or the underscore.
  Strings compare as Python compares them: lexicographically by code point.
\<close>

definition between :: "nat \<Rightarrow> nat \<Rightarrow> char \<Rightarrow> bool" where
  "between lo hi c = (lo \<le> of_char c \<and> (of_char c :: nat) \<le> hi)"

definition is_AZ :: "char \<Rightarrow> bool" where
  "is_AZ c = between 65 90 c"

definition is_az :: "char \<Rightarrow> bool" where
  "is_az c = between 97 122 c"

definition is_09 :: "char \<Rightarrow> bool" where
  "is_09 c = between 48 57 c"

definition is_space :: "char \<Rightarrow> bool" where
  "is_space c = (between 9 13 c \<or> between 28 32 c \<or> between 133 133 c \<or> between 160 160 c)"

definition is_word :: "char \<Rightarrow> bool" where
  "is_word c = (is_AZ c \<or> is_az c \<or> is_09 c \<or> c = CHR ''_''
     \<or> between 170 170 c \<or> between 178 179 c \<or> between 181 181 c \<or> between 185 186 c
     \<or> between 188 190 c \<or> between 192 214 c \<or> between 216 246 c \<or> between 248 255 c)"

definition lower_char :: "char \<Rightarrow> char" where
  "lower_char c =
     (if is_AZ c \<or> between 192 214 c \<or> between 216 222 c
      then char_of (of_char c + (32 :: nat)) else c)"

definition py_lower :: "string \<Rightarrow> string" where
  "py_lower s = map lower_char s"

definition strip :: "string \<Rightarrow> string" where
  "strip s = rev (dropWhile is_space (rev (dropWhile is_space s)))"

definition starts_with :: "string \<Rightarrow> string \<Rightarrow> bool" where
  "starts_with p s = (take (length p) s = p)"

definition ends_with :: "string \<Rightarrow> string \<Rightarrow> bool" where
  "ends_with suf s = (length suf \<le> length s \<and> drop (length s - length suf) s = suf)"

text \<open>\<^verbatim>\<open>needle in hay\<close>\<close>

fun contains :: "string \<Rightarrow> string \<Rightarrow> bool" where
  "contains n [] = (n = [])"
| "contains n (c # cs) = (starts_with n (c # cs) \<or> contains n cs)"

text \<open>\<^verbatim>\<open>hay.find(needle)\<close>: the first index, \<open>None\<close> for Python's \<open>-1\<close>.\<close>

fun py_find :: "string \<Rightarrow> string \<Rightarrow> nat option" where
  "py_find n [] = (if n = [] then Some 0 else None)"
| "py_find n (c # cs) =
     (if starts_with n (c # cs) then Some 0 else map_option Suc (py_find n cs))"

section \<open>Data model\<close>

record RepoSpec =
  owner :: string
  repo :: string

definition full_name :: "RepoSpec \<Rightarrow> string" where
  "full_name spec = owner spec @ ''/'' @ repo spec"

record evidence =
  ev_path :: "string option"
  snippet :: "string option"

text \<open>
  \<^verbatim>\<open>make_evidence(path, text, needle, radius=120)\<close>; every caller uses the default
  radius. \<^verbatim>\<open>text[start:end]\<close> with \<open>start = max(0, idx - radius)\<close> and
  \<open>end = min(len(text), idx + len(needle) + radius)\<close>.
\<close>

definition make_evidence :: "string option \<Rightarrow> string option \<Rightarrow> string \<Rightarrow> evidence" where
  "make_evidence path txt needle =
     \<lparr>ev_path = path,
      snippet =
        (case txt of
           None \<Rightarrow> None
         | Some t \<Rightarrow>
             if needle = [] then None
             else (case py_find (py_lower needle) (py_lower t) of
                     None \<Rightarrow> None
                   | Some idx \<Rightarrow>
                       Some (strip (take (min (length t) (idx + length needle + 120) - (idx - 120))
                                      (drop (idx - 120) t)))))\<rparr>"

section \<open>Regular expressions\<close>

text \<open>
  Each pattern of the source is written out as the backtracking matcher Python's
  \<^verbatim>\<open>re\<close> runs for it: a literal is a test of the next character, a greedy
  quantifier is \<open>try_down\<close> (the longest repetition first, then one less, down to the
  minimum), \<^verbatim>\<open>\b\<close> is \<open>wb\<close> on the characters before and after the position. A
  matcher gets the character before the position (\<open>None\<close> at the start of the text)
  and the text from the position on, and returns the groups and the number of
  characters the match spans. \<open>finditer\<close> is the scan of \<^verbatim>\<open>re.finditer\<close> and
  \<^verbatim>\<open>re.findall\<close>: try each position from the left, and go on after a match.
\<close>

definition at :: "string \<Rightarrow> nat \<Rightarrow> char option" where
  "at s i = (if i < length s then Some (s ! i) else None)"

definition word_at :: "char option \<Rightarrow> bool" where
  "word_at co = (case co of None \<Rightarrow> False | Some c \<Rightarrow> is_word c)"

definition wb :: "char option \<Rightarrow> char option \<Rightarrow> bool" where
  "wb p n = (word_at p \<noteq> word_at n)"

definition run :: "(char \<Rightarrow> bool) \<Rightarrow> string \<Rightarrow> nat" where
  "run p s = length (takeWhile p s)"

primrec try_down :: "(nat \<Rightarrow> 'a option) \<Rightarrow> nat \<Rightarrow> nat \<Rightarrow> 'a option" where
  "try_down f lo 0 = (if 0 < lo then None else f 0)"
| "try_down f lo (Suc m) =
     (if Suc m < lo then None
      else (case f (Suc m) of Some r \<Rightarrow> Some r | None \<Rightarrow> try_down f lo m))"

function finditer :: "(char option \<Rightarrow> string \<Rightarrow> ('g \<times> nat) option) \<Rightarrow> char option \<Rightarrow> string \<Rightarrow> 'g list" where
  "finditer m prev [] = []"
| "finditer m prev (c # cs) =
     (case m prev (c # cs) of
        None \<Rightarrow> finditer m (Some c) cs
      | Some (g, n) \<Rightarrow> g # finditer m (Some (last (c # take (n - 1) cs))) (drop (n - 1) cs))"
  by pat_completeness auto
termination
  by (relation "measure (\<lambda>(m, prev, s). length s)") auto

section \<open>Environment variables\<close>

text \<open>The pattern \<^verbatim>\<open>\b[A-Z][A-Z0-9_]*\b\<close>.\<close>

definition env_char :: "char \<Rightarrow> bool" where
  "env_char c = (is_AZ c \<or> is_09 c \<or> c = CHR ''_'')"

definition match_env :: "char option \<Rightarrow> string \<Rightarrow> (string \<times> nat) option" where
  "match_env prev s =
     (case s of
        [] \<Rightarrow> None
      | c # cs \<Rightarrow>
          if wb prev (Some c) \<and> is_AZ c
          then try_down
                 (\<lambda>k. if wb (at s k) (at s (Suc k)) then Some (take (Suc k) s, Suc k) else None)
                 0 (run env_char cs)
          else None)"

text \<open>\<^verbatim>\<open>re.findall(r"\b[A-Z][A-Z0-9_]*\b", readme_text)\<close>\<close>

definition env_matches :: "string \<Rightarrow> string list" where
  "env_matches t = finditer match_env None t"

record env_var =
  env_name :: string
  env_confidence :: string
  env_evidence :: evidence

definition keep_env :: "string \<Rightarrow> bool" where
  "keep_env n =
     (n = ''PORT'' \<or> ends_with ''_SERVICE_URL'' n \<or> ends_with ''_URL'' n \<or> ends_with ''_TOKEN'' n)"

text \<open>
  \<open>ms\<close> is the set \<^verbatim>\<open>matches\<close> in the order the \<^verbatim>\<open>for\<close> loop happens to iterate
  it; the loop appends the kept names, and \<^verbatim>\<open>sorted(set(keep))\<close> follows.
\<close>

definition env_names :: "string list \<Rightarrow> string list" where
  "env_names ms = sort (remdups (filter keep_env ms))"

definition extract_env_vars :: "string option \<Rightarrow> string option \<Rightarrow> env_var list" where
  "extract_env_vars readme_path readme_text =
     (case readme_text of
        None \<Rightarrow> []
      | Some t \<Rightarrow>
          if strip t = [] then []
          else map (\<lambda>n. \<lparr>env_name = n, env_confidence = ''medium'',
                           env_evidence = make_evidence readme_path (Some t) n\<rparr>)
                 (env_names (remdups (env_matches t))))"

section \<open>Repository kind\<close>

definition repo_kind_for :: "RepoSpec \<Rightarrow> string option \<Rightarrow> string option \<Rightarrow> string" where
  "repo_kind_for spec language readme_text =
     (let repo_name = py_lower (repo spec) in
      if contains ''test'' repo_name then ''tests''
      else if contains ''infra'' repo_name then ''infra''
      else if contains ''middleware'' repo_name \<or> contains ''sdk'' repo_name then ''library''
      else if contains ''service'' repo_name then ''service''
      else
        let readme = py_lower (case readme_text of None \<Rightarrow> [] | Some t \<Rightarrow> t) in
        if contains ''microservice'' readme \<or> contains ''service'' readme then ''service''
        else if contains ''library'' readme \<or> contains ''middleware'' readme then ''library''
        else if (case language of
                   None \<Rightarrow> False
                 | Some l \<Rightarrow> l \<noteq> [] \<and>
                     py_lower l \<in> {''go'', ''typescript'', ''javascript'', ''python''})
        then ''service''
        else ''unknown'')"

section \<open>Dependency inference\<close>

record dependency =
  dep_target :: string
  dep_type :: string
  dep_confidence :: string
  dep_evidence :: evidence

text \<open>
  \<^verbatim>\<open>name[: -len("_SERVICE_URL")].lower().replace("_", "-") + "-service"\<close>. The
  entries of \<open>env_vars\<close> are the records \<open>extract_env_vars\<close> builds, so
  \<^verbatim>\<open>env.get("name")\<close> is a string.
\<close>

definition target_of :: "string \<Rightarrow> string" where
  "target_of name =
     map (\<lambda>c. if c = CHR ''_'' then CHR ''-'' else c)
       (py_lower (take (length name - length ''_SERVICE_URL'') name)) @ ''-service''"

definition depends_step ::
  "RepoSpec \<Rightarrow> string option \<Rightarrow> string option \<Rightarrow>
   dependency list \<times> (string \<times> string) set \<Rightarrow> env_var \<Rightarrow> dependency list \<times> (string \<times> string) set" where
  "depends_step spec readme_path readme_text st env =
     (let name = env_name env in
      if \<not> ends_with ''_SERVICE_URL'' name then st
      else
        let target = target_of name; key = (repo spec, target) in
        if key \<in> snd st \<or> target = repo spec then st
        else (fst st @ [\<lparr>dep_target = target, dep_type = ''http'', dep_confidence = ''medium'',
                          dep_evidence = make_evidence readme_path readme_text name\<rparr>],
              insert key (snd st)))"

definition infer_depends_on ::
  "RepoSpec \<Rightarrow> env_var list \<Rightarrow> string option \<Rightarrow> string option \<Rightarrow> dependency list" where
  "infer_depends_on spec env_vars readme_path readme_text =
     fst (foldl (depends_step spec readme_path readme_text) ([], {}) env_vars)"

section \<open>Authentication signals\<close>

record auth_signal =
  signal :: string
  sig_confidence :: string
  sig_evidence :: evidence

definition markers :: "string list" where
  "markers = [''AuthGuard'', ''RequireRolesGuard'', ''RequireAllRolesGuard'', ''@Roles'',
     ''@RequireAllRoles'', ''AuthMiddleware'', ''RequireRoles('', ''RequireAllRoles('']"

definition extract_auth_signals :: "string option \<Rightarrow> string option \<Rightarrow> auth_signal list" where
  "extract_auth_signals readme_path readme_text =
     (case readme_text of
        None \<Rightarrow> []
      | Some t \<Rightarrow>
          if strip t = [] then []
          else map (\<lambda>marker. \<lparr>signal = marker, sig_confidence = ''medium'',
                                sig_evidence = make_evidence readme_path (Some t) marker\<rparr>)
                 (filter (\<lambda>marker. contains (py_lower marker) (py_lower t)) markers))"

section \<open>Endpoints\<close>

definition HTTP_METHODS :: "string list" where
  "HTTP_METHODS = [''GET'', ''POST'', ''PUT'', ''PATCH'', ''DELETE'', ''OPTIONS'', ''HEAD'']"

definition newline :: char where
  "newline = CHR 0x0A"

definition backtick :: char where
  "backtick = CHR 0x60"

text \<open>
  The pattern \<^verbatim>\<open>(?m)^\s{0,4}(/[^\s:#]+):\s*$\<close>. With the multiline flag \<^verbatim>\<open>^\<close>
  holds at the start of the text and after a newline, \<^verbatim>\<open>$\<close> at the end of the text
  and before a newline. The quantifiers from the outside in: \<open>i\<close> characters of
  \<^verbatim>\<open>\s{0,4}\<close>, \<open>j\<close> of \<^verbatim>\<open>[^\s:#]+\<close>, \<open>k\<close> of \<^verbatim>\<open>\s*\<close>. The group is the path.
\<close>

definition openapi_char :: "char \<Rightarrow> bool" where
  "openapi_char c = (\<not> is_space c \<and> c \<noteq> CHR '':'' \<and> c \<noteq> CHR ''#'')"

definition match_openapi :: "char option \<Rightarrow> string \<Rightarrow> (string \<times> nat) option" where
  "match_openapi prev s =
     (if prev = None \<or> prev = Some newline
      then try_down
        (\<lambda>i. case drop i s of
                [] \<Rightarrow> None
              | c # s1 \<Rightarrow>
                  if c = CHR ''/''
                  then try_down
                    (\<lambda>j. case drop j s1 of
                            [] \<Rightarrow> None
                          | d # s2 \<Rightarrow>
                              if d = CHR '':''
                              then try_down
                                (\<lambda>k. if at s2 k = None \<or> at s2 k = Some newline
                                      then Some (CHR ''/'' # take j s1, i + 1 + j + 1 + k)
                                      else None)
                                0 (run is_space s2)
                              else None)
                    1 (run openapi_char s1)
                  else None)
        0 (min 4 (run is_space s))
      else None)"

text \<open>
  The pattern
  \<^verbatim>\<open>\b(GET|POST|PUT|PATCH|DELETE|OPTIONS|HEAD)\b\s+`?(/[-A-Za-z0-9_{}:./]+)`?\<close>.
  \<open>first_alt\<close> is the alternation: the first alternative after which the rest of the
  pattern matches. After the method \<open>m\<close>: \<open>i\<close> characters of \<^verbatim>\<open>\s+\<close>, \<open>b\<close> opening
  backticks, \<open>j\<close> characters of the path class, \<open>e\<close> closing backticks. The groups are
  the method and the path.
\<close>

definition readme_path_char :: "char \<Rightarrow> bool" where
  "readme_path_char c =
     (c = CHR ''-'' \<or> is_AZ c \<or> is_az c \<or> is_09 c \<or> c = CHR ''_'' \<or> c = CHR ''{''
      \<or> c = CHR ''}'' \<or> c = CHR '':'' \<or> c = CHR ''.'' \<or> c = CHR ''/'')"

primrec first_alt :: "('a \<Rightarrow> 'b option) \<Rightarrow> 'a list \<Rightarrow> 'b option" where
  "first_alt f [] = None"
| "first_alt f (x # xs) = (case f x of Some r \<Rightarrow> Some r | None \<Rightarrow> first_alt f xs)"

definition ticks :: "string \<Rightarrow> nat" where
  "ticks s = (if at s 0 = Some backtick then 1 else 0)"

definition match_after_method :: "string \<Rightarrow> string \<Rightarrow> ((string \<times> string) \<times> nat) option" where
  "match_after_method m s =
     (let s1 = drop (length m) s in
      if wb (Some (last m)) (at s1 0)
      then try_down
        (\<lambda>i. try_down
           (\<lambda>b. case drop (i + b) s1 of
                   [] \<Rightarrow> None
                 | c # s3 \<Rightarrow>
                     if c = CHR ''/''
                     then try_down
                       (\<lambda>j. try_down
                          (\<lambda>e. Some ((m, CHR ''/'' # take j s3), length m + i + b + 1 + j + e))
                          0 (ticks (drop j s3)))
                       1 (run readme_path_char s3)
                     else None)
           0 (ticks (drop i s1)))
        1 (run is_space s1)
      else None)"

definition match_readme :: "char option \<Rightarrow> string \<Rightarrow> ((string \<times> string) \<times> nat) option" where
  "match_readme prev s =
     (if wb prev (at s 0)
      then first_alt (\<lambda>m. if starts_with m s then match_after_method m s else None) HTTP_METHODS
      else None)"

record endpoint =
  ep_method :: string
  ep_path :: string
  ep_source :: string
  ep_confidence :: string
  ep_evidence :: evidence

text \<open>
  \<^verbatim>\<open>m.group(1).upper()\<close>. On the code points of the model \<^verbatim>\<open>str.upper\<close> maps a
  letter to the code point 32 below it, but for U+00B5, U+00DF and U+00FF, whose
  upper case lies outside the range; they stay as they are here. The argument is a
  matched method name, which has none of them.
\<close>

definition upper_char :: "char \<Rightarrow> char" where
  "upper_char c =
     (if is_az c \<or> between 224 246 c \<or> between 248 254 c
      then char_of (of_char c - (32 :: nat)) else c)"

definition py_upper :: "string \<Rightarrow> string" where
  "py_upper s = map upper_char s"


text \<open>The state of both loops: the list \<open>endpoints\<close> and the set \<open>seen\<close>.\<close>

definition openapi_step ::
  "string option \<Rightarrow> string \<Rightarrow> endpoint list \<times> (string \<times> string) set \<Rightarrow> string \<Rightarrow>
   endpoint list \<times> (string \<times> string) set" where
  "openapi_step openapi_path openapi_text st g =
     (let path = strip g in
      if \<not> starts_with ''/'' path then st
      else
        let key = (''ANY'', path) in
        if key \<in> snd st then st
        else (fst st @ [\<lparr>ep_method = ''ANY'', ep_path = path, ep_source = ''openapi'',
                          ep_confidence = ''high'',
                          ep_evidence = make_evidence openapi_path (Some openapi_text) path\<rparr>],
              insert key (snd st)))"

definition readme_step ::
  "string option \<Rightarrow> string \<Rightarrow> endpoint list \<times> (string \<times> string) set \<Rightarrow> string \<times> string \<Rightarrow>
   endpoint list \<times> (string \<times> string) set" where
  "readme_step readme_path readme_text st g =
     (let meth = py_upper (fst g); path = snd g; key = (meth, path) in
      if key \<in> snd st then st
      else (fst st @ [\<lparr>ep_method = meth, ep_path = path, ep_source = ''readme'',
                        ep_confidence = ''medium'',
                        ep_evidence = make_evidence readme_path (Some readme_text)
                                        (meth @ '' '' @ path)\<rparr>],
            insert key (snd st)))"

definition scan_openapi ::
  "string option \<Rightarrow> string option \<Rightarrow> endpoint list \<times> (string \<times> string) set \<Rightarrow>
   endpoint list \<times> (string \<times> string) set" where
  "scan_openapi openapi_path openapi_text st =
     (case openapi_text of
        None \<Rightarrow> st
      | Some t \<Rightarrow>
          if strip t = [] then st
          else foldl (openapi_step openapi_path t) st (finditer match_openapi None t))"

definition scan_readme ::
  "string option \<Rightarrow> string option \<Rightarrow> endpoint list \<times> (string \<times> string) set \<Rightarrow>
   endpoint list \<times> (string \<times> string) set" where
  "scan_readme readme_path readme_text st =
     (case readme_text of
        None \<Rightarrow> st
      | Some t \<Rightarrow>
          if strip t = [] then st
          else foldl (readme_step readme_path t) st (finditer match_readme None t))"

definition extract_endpoints ::
  "string option \<Rightarrow> string option \<Rightarrow> string option \<Rightarrow> string option \<Rightarrow> endpoint list" where
  "extract_endpoints readme_path readme_text openapi_path openapi_text =
     fst (scan_readme readme_path readme_text
            (scan_openapi openapi_path openapi_text ([], {})))"

section \<open>Repository list\<close>

text \<open>
  The ways the run ends without writing its output: the calls of \<^verbatim>\<open>die\<close>, and the
  exceptions nothing catches: the \<^verbatim>\<open>ValueError\<close> that \<^verbatim>\<open>int\<close> and \<^verbatim>\<open>range\<close> raise
  in \<^verbatim>\<open>main\<close>, and the \<^verbatim>\<open>OverflowError\<close> and \<^verbatim>\<open>OSError\<close> that \<^verbatim>\<open>time.sleep\<close>
  raises in \<^verbatim>\<open>handle_rate_limit\<close>.
\<close>

datatype fatal = MissingRepoList | NoValidRepos | MissingToken | ValueError | OverflowError | OSError

text \<open>
  What one iteration of the loop over \<^verbatim>\<open>path.read_text().splitlines()\<close> does
  with its line: nothing (a blank line or a comment), a warning on the diagnostic
  stream, or a new \<open>RepoSpec\<close>. \<^verbatim>\<open>line.split("/", 1)\<close> cuts at the first slash.
\<close>

datatype line_result = Ignored | Skipped string | Parsed RepoSpec

definition read_line :: "string \<Rightarrow> line_result" where
  "read_line raw =
     (let line = strip raw in
      if line = [] \<or> starts_with ''#'' line then Ignored
      else if CHR ''/'' \<notin> set line
      then Skipped (''Skipping invalid line (expected owner/repo): '' @ line)
      else
        let own = strip (takeWhile (\<lambda>c. c \<noteq> CHR ''/'') line);
            rep = strip (drop 1 (dropWhile (\<lambda>c. c \<noteq> CHR ''/'') line))
        in if own \<noteq> [] \<and> rep \<noteq> []
           then Parsed \<lparr>owner = own, repo = rep\<rparr>
           else Skipped (''Skipping invalid line (blank owner or repo): '' @ line))"

text \<open>The state of the loop: the list \<open>specs\<close> and the warnings printed so far.\<close>

definition load_step :: "RepoSpec list \<times> string list \<Rightarrow> string \<Rightarrow> RepoSpec list \<times> string list" where
  "load_step st raw =
     (case read_line raw of
        Ignored \<Rightarrow> st
      | Skipped warning \<Rightarrow> (fst st, snd st @ [warning])
      | Parsed spec \<Rightarrow> (fst st @ [spec], snd st))"

text \<open>The argument is the list of the file's lines, \<open>None\<close> when the file does not exist.\<close>

definition load_repo_list :: "string list option \<Rightarrow> fatal + RepoSpec list \<times> string list" where
  "load_repo_list file =
     (case file of
        None \<Rightarrow> Inl MissingRepoList
      | Some ls \<Rightarrow> Inr (foldl load_step ([], []) ls))"

section \<open>Numbers as text\<close>

text \<open>\<^verbatim>\<open>str(n)\<close> of an integer, as in \<^verbatim>\<open>f"http_{status_code}"\<close> and \<^verbatim>\<open>f"r{i}"\<close>.\<close>

function str_nat :: "nat \<Rightarrow> string" where
  "str_nat n =
     (if n < 10 then [''0123456789'' ! n] else str_nat (n div 10) @ [''0123456789'' ! (n mod 10)])"
  by pat_completeness auto
termination
  by (relation "measure (\<lambda>n. n)") auto

definition str_int :: "int \<Rightarrow> string" where
  "str_int i = (if i < 0 then CHR ''-'' # str_nat (nat (- i)) else str_nat (nat i))"

text \<open>
  \<^verbatim>\<open>int(s)\<close> of a string, as CPython 3.11 converts it with its default settings.
  Whitespace around the number is dropped: the ASCII whitespace U+0009 .. U+000D and
  U+0020, and U+0085 and U+00A0 (the separators U+001C .. U+001F, which
  \<^verbatim>\<open>str.strip\<close> drops, are an error here). Then come an optional sign and decimal
  digits, which single underscores may separate. A string with more than 4300 digits
  is refused. \<open>None\<close> is the \<^verbatim>\<open>ValueError\<close>.
\<close>

definition int_space :: "char \<Rightarrow> bool" where
  "int_space c = (between 9 13 c \<or> between 32 32 c \<or> between 133 133 c \<or> between 160 160 c)"

definition int_strip :: "string \<Rightarrow> string" where
  "int_strip s = rev (dropWhile int_space (rev (dropWhile int_space s)))"

definition digit_val :: "char \<Rightarrow> nat" where
  "digit_val c = of_char c - 48"

fun dec_digits :: "nat \<Rightarrow> string \<Rightarrow> nat option" where
  "dec_digits acc [] = Some acc"
| "dec_digits acc [c] = (if is_09 c then Some (10 * acc + digit_val c) else None)"
| "dec_digits acc (c # d # ds) =
     (if is_09 c then dec_digits (10 * acc + digit_val c) (d # ds)
      else if c = CHR ''_'' \<and> is_09 d then dec_digits (10 * acc + digit_val d) ds
      else None)"

definition dec_number :: "string \<Rightarrow> nat option" where
  "dec_number s =
     (case s of [] \<Rightarrow> None | c # cs \<Rightarrow> if is_09 c then dec_digits (digit_val c) cs else None)"

definition py_int :: "string \<Rightarrow> int option" where
  "py_int s =
     (if 4300 < length (filter is_09 s) then None
      else (case int_strip s of
              [] \<Rightarrow> None
            | c # cs \<Rightarrow>
                if c = CHR ''-'' then map_option (\<lambda>n. - int n) (dec_number cs)
                else if c = CHR ''+'' then map_option int (dec_number cs)
                else map_option int (dec_number (c # cs))))"

section \<open>The GraphQL response\<close>

text \<open>
  The parsed response, typed as the query types it. A repository node has, of the
  fields the entry is built from, the name with owner (\<open>None\<close>: the key is missing),
  the name of the primary language (\<open>None\<close>: null) and the file objects by alias
  (\<open>None\<close>: no dict under the alias; the dict's \<open>text\<close> when it is a string). The other
  metadata fields of the entry (\<open>html_url\<close>, \<open>description\<close>, \<open>topics\<close>,
  \<open>languages_bytes\<close> and so on) are copies of members of the node; no extractor reads
  them, and they are left out of the node and of the entry. An element of \<open>errors\<close> is
  \<open>None\<close> when it is no dict; its path is \<open>None\<close> when it is no list.
\<close>

datatype blob = Blob (blob_text: "string option")

record repo_node =
  nameWithOwner :: "string option"
  primaryLanguage :: "string option"
  file_objects :: "string \<Rightarrow> blob option"

datatype path_seg = Key string | Index int

record gql_error =
  err_path :: "path_seg list option"
  err_message :: "string option"

record gql_payload =
  errors :: "gql_error option list"
  data :: "string \<Rightarrow> repo_node option"

datatype json_doc = NotDict | Dict gql_payload

section \<open>API client\<close>

text \<open>
  What one \<^verbatim>\<open>urlopen\<close> call gives: a \<^verbatim>\<open>URLError\<close>, or a status code with headers
  and a body (a response, or an \<^verbatim>\<open>HTTPError\<close>, which carries the same three). The
  body is the result of \<^verbatim>\<open>json.loads\<close>: \<open>None\<close> for a \<^verbatim>\<open>JSONDecodeError\<close>.
\<close>

datatype http_outcome =
  URLError
| Response int "string \<Rightarrow> string option" "json_doc option"

text \<open>
  What the process finds when it handles a response: the time \<^verbatim>\<open>int(time.time())\<close>,
  and the longest sleep the operating system accepts at that moment.
\<close>

record moment =
  time_now :: int
  sleep_max :: int

text \<open>
  \<^verbatim>\<open>time.sleep(s)\<close> for an integer \<open>s\<close> of at least 1, as CPython 3.11 runs it: the
  exception it raises, if it raises. A duration above 9223372036 seconds does not fit
  the interpreter's nanosecond clock (\<^verbatim>\<open>OverflowError\<close>); below that the operating
  system refuses a sleep that ends beyond the range of its own clock
  (\<^verbatim>\<open>OSError\<close>). Sleeps of up to three seconds are always accepted: the sleeps
  between attempts in \<^verbatim>\<open>gh_post_json\<close> are of that kind.
\<close>

definition py_sleep :: "moment \<Rightarrow> int \<Rightarrow> fatal option" where
  "py_sleep m s =
     (if 9223372036 < s then Some OverflowError
      else if max 3 (sleep_max m) < s then Some OSError
      else None)"

text \<open>
  \<^verbatim>\<open>handle_rate_limit\<close>: the seconds it sleeps, if it sleeps, or the exception that
  leaves it. The \<^verbatim>\<open>try\<close> block catches \<^verbatim>\<open>ValueError\<close> only: that of
  \<^verbatim>\<open>int(reset)\<close>, and that of the \<^verbatim>\<open>print\<close> call, whose f-string refuses to
  format a duration of more than 4300 digits; \<^verbatim>\<open>time.sleep\<close> comes after the
  \<^verbatim>\<open>print\<close>.
\<close>

definition handle_rate_limit ::
  "int \<Rightarrow> (string \<Rightarrow> string option) \<Rightarrow> moment \<Rightarrow> fatal + int option" where
  "handle_rate_limit status_code headers m =
     (if status_code \<noteq> 403 then Inr None
      else if headers ''X-RateLimit-Remaining'' = Some ''0''
      then (case headers ''X-RateLimit-Reset'' of
              None \<Rightarrow> Inr None
            | Some reset \<Rightarrow>
                if reset = [] then Inr None
                else (case py_int reset of
                        None \<Rightarrow> Inr None
                      | Some reset_ts \<Rightarrow>
                          let sleep_s = max 1 (reset_ts - time_now m + 1) in
                          if 4300 < length (str_nat (nat sleep_s)) then Inr None
                          else (case py_sleep m sleep_s of
                                  Some e \<Rightarrow> Inl e
                                | None \<Rightarrow> Inr (Some sleep_s))))
      else Inr None)"

record gh_result =
  payload :: "json_doc option"
  err :: "string option"
  slept :: "int list"
  requests :: nat

text \<open>
  The loop \<^verbatim>\<open>for attempt in range(3)\<close> of \<^verbatim>\<open>gh_post_json\<close>, from the attempts
  still to run. \<open>net r\<close> is the outcome of request number \<open>r\<close> (counted from 0 over
  the call) and \<open>clock r\<close> the moment at which that outcome is handled; \<open>req\<close> counts
  the requests made, \<open>sl\<close> lists the sleeps so far. A \<^verbatim>\<open>continue\<close> is the recursive
  call on the remaining attempts. The result is \<open>Inl\<close> when an exception leaves the
  function.
\<close>

fun gh_attempts ::
  "(nat \<Rightarrow> http_outcome) \<Rightarrow> (nat \<Rightarrow> moment) \<Rightarrow> nat \<Rightarrow> int list \<Rightarrow> nat list \<Rightarrow>
   fatal + gh_result" where
  "gh_attempts net clock req sl [] =
     Inr \<lparr>payload = None, err = Some ''failed'', slept = sl, requests = req\<rparr>"
| "gh_attempts net clock req sl (attempt # rest) =
     (case net req of
        URLError \<Rightarrow>
          if attempt < 2
          then gh_attempts net clock (Suc req) (sl @ [1 + int attempt]) rest
          else Inr \<lparr>payload = None, err = Some ''network_error'', slept = sl, requests = Suc req\<rparr>
      | Response status_code headers body \<Rightarrow>
          (case (if status_code = 403 then handle_rate_limit status_code headers (clock req)
                 else Inr None) of
             Inl e \<Rightarrow> Inl e
           | Inr nap \<Rightarrow>
               let sl1 = (case nap of None \<Rightarrow> sl | Some sleep_s \<Rightarrow> sl @ [sleep_s]) in
               if status_code = 403 \<and> headers ''X-RateLimit-Remaining'' = Some ''0''
               then gh_attempts net clock (Suc req) sl1 rest
               else if status_code = 200 \<or> status_code = 201
               then (case body of
                       Some p \<Rightarrow>
                         Inr \<lparr>payload = Some p, err = None, slept = sl1, requests = Suc req\<rparr>
                     | None \<Rightarrow>
                         Inr \<lparr>payload = None, err = Some ''invalid_json'', slept = sl1,
                              requests = Suc req\<rparr>)
               else if status_code = 404
               then Inr \<lparr>payload = None, err = Some ''not_found'', slept = sl1, requests = Suc req\<rparr>
               else if status_code = 401
               then Inr \<lparr>payload = None, err = Some ''unauthorized'', slept = sl1,
                         requests = Suc req\<rparr>
               else if status_code = 403
               then Inr \<lparr>payload = None, err = Some ''forbidden'', slept = sl1, requests = Suc req\<rparr>
               else if status_code \<ge> 500 \<and> attempt < 2
               then gh_attempts net clock (Suc req) (sl1 @ [1 + int attempt]) rest
               else Inr \<lparr>payload = None, err = Some (''http_'' @ str_int status_code),
                         slept = sl1, requests = Suc req\<rparr>))"

definition gh_post_json :: "(nat \<Rightarrow> http_outcome) \<Rightarrow> (nat \<Rightarrow> moment) \<Rightarrow> fatal + gh_result" where
  "gh_post_json net clock = gh_attempts net clock 0 [] [0, 1, 2]"

text \<open>
  Networks and clocks for scenarios: the network that answers the requests with the
  listed outcomes and is unreachable after them, and the clock that stands still, on
  a machine that accepts every sleep the interpreter does.
\<close>

definition replies :: "http_outcome list \<Rightarrow> nat \<Rightarrow> http_outcome" where
  "replies rs r = (if r < length rs then rs ! r else URLError)"

definition at_time :: "int \<Rightarrow> nat \<Rightarrow> moment" where
  "at_time t r = \<lparr>time_now = t, sleep_max = 9223372036\<rparr>"

section \<open>Response normalizer\<close>

record file_entry =
  fe_path :: "string option"
  fe_text :: string
  truncated :: bool

record files =
  f_readme :: "file_entry option"
  f_codeowners :: "file_entry option"
  f_catalog :: "file_entry option"
  f_openapi :: "file_entry option"

record derived =
  repo_kind :: string
  env_vars :: "env_var list"
  auth_signals :: "auth_signal list"
  endpoints :: "endpoint list"
  depends_on :: "dependency list"

record entry =
  e_full_name :: string
  language :: "string option"
  e_files :: files
  e_derived :: derived

text \<open>A record of the output: \<^verbatim>\<open>{"full_name": ..., "error": ...}\<close>, or a full entry.\<close>

datatype repo_record = ErrorRecord string string | Entry entry

definition extract_blob_text :: "repo_node \<Rightarrow> string \<Rightarrow> string option" where
  "extract_blob_text repo_node alias =
     (case file_objects repo_node alias of None \<Rightarrow> None | Some node \<Rightarrow> blob_text node)"

definition readme_candidates :: "repo_node \<Rightarrow> (string \<times> string option) list" where
  "readme_candidates repo_node =
     [(''README.md'', extract_blob_text repo_node ''readme_md''),
      (''README.rst'', extract_blob_text repo_node ''readme_rst''),
      (''README.txt'', extract_blob_text repo_node ''readme_txt'')]"

definition codeowners_candidates :: "repo_node \<Rightarrow> (string \<times> string option) list" where
  "codeowners_candidates repo_node =
     [(''CODEOWNERS'', extract_blob_text repo_node ''codeowners_root''),
      (''.github/CODEOWNERS'', extract_blob_text repo_node ''codeowners_gh'')]"

definition catalog_candidates :: "repo_node \<Rightarrow> (string \<times> string option) list" where
  "catalog_candidates repo_node =
     [(''catalog-info.yaml'', extract_blob_text repo_node ''catalog_yaml''),
      (''catalog-info.yml'', extract_blob_text repo_node ''catalog_yml'')]"

definition openapi_candidates :: "repo_node \<Rightarrow> (string \<times> string option) list" where
  "openapi_candidates repo_node =
     [(''openapi.yaml'', extract_blob_text repo_node ''openapi_yaml''),
      (''openapi.yml'', extract_blob_text repo_node ''openapi_yml''),
      (''swagger.yaml'', extract_blob_text repo_node ''swagger_yaml''),
      (''swagger.yml'', extract_blob_text repo_node ''swagger_yml''),
      (''api/openapi.yaml'', extract_blob_text repo_node ''api_openapi_yaml''),
      (''api/openapi.yml'', extract_blob_text repo_node ''api_openapi_yml''),
      (''api/swagger.yaml'', extract_blob_text repo_node ''api_swagger_yaml''),
      (''api/swagger.yml'', extract_blob_text repo_node ''api_swagger_yml'')]"

fun first_present :: "(string \<times> string option) list \<Rightarrow> string option \<times> string option" where
  "first_present [] = (None, None)"
| "first_present ((p, txt) # rest) =
     (case txt of Some t \<Rightarrow> (Some p, Some t) | None \<Rightarrow> first_present rest)"

text \<open>\<^verbatim>\<open>{"path": path, "text": text} if text else None\<close>\<close>

definition file_of :: "string option \<times> string option \<Rightarrow> file_entry option" where
  "file_of pt =
     (case snd pt of
        None \<Rightarrow> None
      | Some t \<Rightarrow>
          if t = [] then None else Some \<lparr>fe_path = fst pt, fe_text = t, truncated = False\<rparr>)"

definition TRUNCATED :: string where
  "TRUNCATED = [newline, newline] @ ''[TRUNCATED]'' @ [newline]"

text \<open>The body of the loop over \<^verbatim>\<open>entry["files"]\<close>, for one value \<open>v\<close> of the dict.\<close>

definition truncate_file :: "file_entry option \<Rightarrow> file_entry option" where
  "truncate_file v =
     (case v of
        None \<Rightarrow> None
      | Some f \<Rightarrow>
          if length (fe_text f) > 200000
          then Some (f\<lparr>fe_text := take 200000 (fe_text f) @ TRUNCATED, truncated := True\<rparr>)
          else Some f)"

text \<open>
  The body of the loop over the aliases for a node that is a dict: the entry, first
  with the files as retrieved, then with every file truncated.
\<close>

definition build_entry :: "RepoSpec \<Rightarrow> repo_node \<Rightarrow> entry" where
  "build_entry spec repo_node =
     (let readme = first_present (readme_candidates repo_node);
          codeowners = first_present (codeowners_candidates repo_node);
          catalog = first_present (catalog_candidates repo_node);
          openapi = first_present (openapi_candidates repo_node);
          readme_path = fst readme; readme_text = snd readme;
          openapi_path = fst openapi; openapi_text = snd openapi;
          envs = extract_env_vars readme_path readme_text;
          deps = infer_depends_on spec envs readme_path readme_text;
          auth = extract_auth_signals readme_path readme_text;
          eps = extract_endpoints readme_path readme_text openapi_path openapi_text;
          kind = repo_kind_for spec (primaryLanguage repo_node) readme_text
      in \<lparr>e_full_name = (case nameWithOwner repo_node of None \<Rightarrow> full_name spec | Some n \<Rightarrow> n),
          language = primaryLanguage repo_node,
          e_files = \<lparr>f_readme = truncate_file (file_of readme),
                      f_codeowners = truncate_file (file_of codeowners),
                      f_catalog = truncate_file (file_of catalog),
                      f_openapi = truncate_file (file_of openapi)\<rparr>,
          e_derived = \<lparr>repo_kind = kind, env_vars = envs, auth_signals = auth,
                        endpoints = eps, depends_on = deps\<rparr>\<rparr>)"

text \<open>\<^verbatim>\<open>{f"r{i}": spec for i, spec in enumerate(specs)}\<close>, as the list of its items.\<close>

definition aliases_of :: "RepoSpec list \<Rightarrow> (string \<times> RepoSpec) list" where
  "aliases_of specs = map (\<lambda>i. (''r'' @ str_nat i, specs ! i)) [0..<length specs]"

text \<open>One iteration of the loop over \<^verbatim>\<open>payload.get("errors")\<close>.\<close>

definition error_step :: "(string \<Rightarrow> string option) \<Rightarrow> gql_error option \<Rightarrow> (string \<Rightarrow> string option)" where
  "error_step errors_by_alias e =
     (case e of
        None \<Rightarrow> errors_by_alias
      | Some er \<Rightarrow>
          (case err_path er of
             None \<Rightarrow> errors_by_alias
           | Some [] \<Rightarrow> errors_by_alias
           | Some (seg # segs) \<Rightarrow>
               errors_by_alias
                 ((case seg of Key k \<Rightarrow> k | Index i \<Rightarrow> str_int i) \<mapsto>
                  (case err_message er of
                     None \<Rightarrow> ''graphql_error''
                   | Some msg \<Rightarrow> if msg = [] then ''graphql_error'' else msg))))"

text \<open>One iteration of the loop over the aliases; \<open>out\<close> is the dict by full name.\<close>

definition alias_step ::
  "(string \<Rightarrow> string option) \<Rightarrow> (string \<Rightarrow> repo_node option) \<Rightarrow>
   (string \<Rightarrow> repo_record option) \<Rightarrow> string \<times> RepoSpec \<Rightarrow> (string \<Rightarrow> repo_record option)" where
  "alias_step errors_by_alias dat out a =
     (let alias = fst a; spec = snd a in
      case errors_by_alias alias of
        Some msg \<Rightarrow> out(full_name spec \<mapsto> ErrorRecord (full_name spec) msg)
      | None \<Rightarrow>
          (case dat alias of
             None \<Rightarrow> out(full_name spec \<mapsto> ErrorRecord (full_name spec) ''not_found'')
           | Some repo_node \<Rightarrow> out(full_name spec \<mapsto> Entry (build_entry spec repo_node))))"

text \<open>
  \<^verbatim>\<open>get_repo_bundle_graphql\<close>, from the result of its call of \<^verbatim>\<open>gh_post_json\<close>;
  an exception of that call leaves this function too.
\<close>

definition bundle_of :: "gh_result \<Rightarrow> RepoSpec list \<Rightarrow> (string \<Rightarrow> repo_record option)" where
  "bundle_of r specs =
     (case (if err r = None \<or> err r = Some [] then payload r else None) of
        Some (Dict p) \<Rightarrow>
          foldl (alias_step (foldl error_step Map.empty (errors p)) (data p)) Map.empty
            (aliases_of specs)
      | _ \<Rightarrow>
          foldl (\<lambda>out spec. out(full_name spec \<mapsto>
                   ErrorRecord (full_name spec)
                     (case err r of None \<Rightarrow> ''unknown'' | Some e \<Rightarrow> if e = [] then ''unknown'' else e)))
            Map.empty specs)"

definition get_repo_bundle_graphql ::
  "(nat \<Rightarrow> http_outcome) \<Rightarrow> (nat \<Rightarrow> moment) \<Rightarrow> RepoSpec list \<Rightarrow>
   fatal + (string \<Rightarrow> repo_record option)" where
  "get_repo_bundle_graphql net clock specs =
     (case gh_post_json net clock of
        Inl e \<Rightarrow> Inl e
      | Inr r \<Rightarrow> Inr (bundle_of r specs))"

section \<open>Aggregator\<close>

record edge =
  edge_from :: string
  edge_to :: string
  edge_type :: string
  edge_confidence :: string
  edge_evidence :: evidence

text \<open>
  The output document; its \<open>schema_version\<close>, \<open>source\<close> and \<open>generated_at\<close> are a
  constant, a constant and the time of the run.
\<close>

record systems_map =
  repos :: "repo_record list"
  dependency_edges :: "edge list"

text \<open>\<^verbatim>\<open>range(0, n, step)\<close> for a positive step.\<close>

function range_from :: "nat \<Rightarrow> nat \<Rightarrow> nat \<Rightarrow> nat list" where
  "range_from i n step =
     (if i < n \<and> 0 < step then i # range_from (i + step) n step else [])"
  by pat_completeness auto
termination
  by (relation "measure (\<lambda>(i, n, step). n - i)") auto

text \<open>\<^verbatim>\<open>range(0, n, step)\<close>: a \<^verbatim>\<open>ValueError\<close> for the step 0, empty for a negative step.\<close>

definition py_range :: "nat \<Rightarrow> int \<Rightarrow> fatal + nat list" where
  "py_range n step =
     (if step = 0 then Inl ValueError
      else if step < 0 then Inr []
      else Inr (range_from 0 n (nat step)))"

text \<open>
  \<^verbatim>\<open>by_repo.get(spec.full_name, {"full_name": spec.full_name, "error": "unknown"})\<close>
\<close>

definition entry_for :: "(string \<Rightarrow> repo_record option) \<Rightarrow> RepoSpec \<Rightarrow> repo_record" where
  "entry_for by_repo spec =
     (case by_repo (full_name spec) of
        None \<Rightarrow> ErrorRecord (full_name spec) ''unknown''
      | Some e \<Rightarrow> e)"

text \<open>The edges one record adds: none for a record without \<open>derived\<close>.\<close>

definition edges_of :: "RepoSpec \<Rightarrow> repo_record \<Rightarrow> edge list" where
  "edges_of spec r =
     (case r of
        ErrorRecord n e \<Rightarrow> []
      | Entry en \<Rightarrow>
          map (\<lambda>dep. \<lparr>edge_from = repo spec, edge_to = dep_target dep, edge_type = dep_type dep,
                       edge_confidence = dep_confidence dep, edge_evidence = dep_evidence dep\<rparr>)
            (filter (\<lambda>dep. dep_target dep \<noteq> []) (depends_on (e_derived en))))"

text \<open>The inner loop, over the specs of a chunk.\<close>

definition add_spec :: "(string \<Rightarrow> repo_record option) \<Rightarrow> systems_map \<Rightarrow> RepoSpec \<Rightarrow> systems_map" where
  "add_spec by_repo res spec =
     (let e = entry_for by_repo spec in
      \<lparr>repos = repos res @ [e], dependency_edges = dependency_edges res @ edges_of spec e\<rparr>)"

text \<open>
  The outer loop, over the start indices \<open>i\<close> of the chunks. The \<open>k\<close>-th call of
  \<^verbatim>\<open>get_repo_bundle_graphql\<close> meets the network \<open>net k\<close> and the clock \<open>clock k\<close>; an
  exception of that call ends the run.
\<close>

fun batches ::
  "(nat \<Rightarrow> nat \<Rightarrow> http_outcome) \<Rightarrow> (nat \<Rightarrow> nat \<Rightarrow> moment) \<Rightarrow> nat \<Rightarrow> RepoSpec list \<Rightarrow>
   nat \<Rightarrow> systems_map \<Rightarrow> nat list \<Rightarrow> fatal + systems_map" where
  "batches net clock batch_size specs k res [] = Inr res"
| "batches net clock batch_size specs k res (i # starts) =
     (let chunk = take batch_size (drop i specs) in
      case get_repo_bundle_graphql (net k) (clock k) chunk of
        Inl e \<Rightarrow> Inl e
      | Inr by_repo \<Rightarrow>
          batches net clock batch_size specs (Suc k) (foldl (add_spec by_repo) res chunk) starts)"

text \<open>
  \<^verbatim>\<open>main\<close>, from the lines of \<^verbatim>\<open>repos.txt\<close> (\<open>None\<close>: no such file) and, read after
  \<^verbatim>\<open>load_dotenv\<close>, the environment's \<^verbatim>\<open>GITHUB_TOKEN\<close> (\<open>None\<close>: not set) and
  \<^verbatim>\<open>GITHUB_GRAPHQL_BATCH_SIZE\<close> (\<open>None\<close>: not set, so \<open>20\<close>). The result is the
  document written, with the warnings of the loader.
\<close>

definition main ::
  "string list option \<Rightarrow> string option \<Rightarrow> string option \<Rightarrow>
   (nat \<Rightarrow> nat \<Rightarrow> http_outcome) \<Rightarrow> (nat \<Rightarrow> nat \<Rightarrow> moment) \<Rightarrow>
   fatal + systems_map \<times> string list" where
  "main file token_env batch_env net clock =
     (case load_repo_list file of
        Inl f \<Rightarrow> Inl f
      | Inr (specs, warnings) \<Rightarrow>
          if specs = [] then Inl NoValidRepos
          else if strip (case token_env of None \<Rightarrow> [] | Some t \<Rightarrow> t) = [] then Inl MissingToken
          else (case py_int (case batch_env of None \<Rightarrow> ''20'' | Some b \<Rightarrow> b) of
                  None \<Rightarrow> Inl ValueError
                | Some batch_size \<Rightarrow>
                    (case py_range (length specs) batch_size of
                       Inl f \<Rightarrow> Inl f
                     | Inr starts \<Rightarrow>
                         (case batches net clock (nat batch_size) specs 0
                                 \<lparr>repos = [], dependency_edges = []\<rparr> starts of
                            Inl f \<Rightarrow> Inl f
                          | Inr res \<Rightarrow> Inr (res, warnings)))))"

section \<open>Environment-variable extraction: sorted set of the kept matches\<close>
















section \<open>Endpoints: one entry per method and path\<close>
















section \<open>Repository kind: the name rules in their order\<close>

text \<open>
  Claim C5, as stated, fails: the rule for \<open>test\<close> is checked before the rule for
  \<open>infra\<close>, so a name that contains both is classified \<open>tests\<close>.
\<close>

theorem infra_name_shadowed_by_test:
  "contains ''infra'' ''infra-tests''
   \<and> repo_kind_for \<lparr>owner = ''acme'', repo = ''infra-tests''\<rparr> (Some ''HCL'') (Some ''Terraform modules'')
       = ''tests''"
  by code_simp

text \<open>
  Claim C5, amended. For every repository whose name, lower-cased, contains \<open>infra\<close>
  and does not contain \<open>test\<close>, the classification is \<open>infra\<close>, whatever the README
  text and the primary language are.
\<close>

theorem repo_kind_infra:
  assumes "contains ''infra'' (py_lower (repo spec))"
    and "\<not> contains ''test'' (py_lower (repo spec))"
  shows "repo_kind_for spec lang readme_text = ''infra''"
  using assms by (simp add: repo_kind_for_def)

theorem repo_kind_infra_witness:
  "repo_kind_for \<lparr>owner = ''acme'', repo = ''Platform-Infra''\<rparr> (Some ''Go'') (Some ''A microservice library'')
     = ''infra''"
proof -
  have 1: "contains ''infra'' (py_lower (repo \<lparr>owner = ''acme'', repo = ''Platform-Infra''\<rparr>))"
    by code_simp
  have 2: "\<not> contains ''test'' (py_lower (repo \<lparr>owner = ''acme'', repo = ''Platform-Infra''\<rparr>))"
    by code_simp
  show ?thesis
    by (rule repo_kind_infra [OF 1 2])
qed

section \<open>Repository list: which lines give a RepoSpec\<close>

lemma split_first:
  "c \<in> set s \<Longrightarrow> s = takeWhile (\<lambda>x. x \<noteq> c) s @ [c] @ drop 1 (dropWhile (\<lambda>x. x \<noteq> c) s)"
  by (induction s) auto

lemma split_first_unique:
  assumes "s = a @ [c] @ b" and "c \<notin> set a"
  shows "takeWhile (\<lambda>x. x \<noteq> c) s = a \<and> drop 1 (dropWhile (\<lambda>x. x \<noteq> c) s) = b"
  using assms by (induction a arbitrary: s) auto

text \<open>
  Claim C6, as stated, fails: a line with more than one slash is not skipped. The line
  is cut at its first slash, and the rest, further slashes included, is the repo name.
\<close>

theorem extra_slash_accepted:
  "load_repo_list (Some [''a/b/c'']) = Inr ([\<lparr>owner = ''a'', repo = ''b/c''\<rparr>], [])"
  by code_simp

lemma read_line_Parsed:
  "read_line raw = Parsed spec \<longleftrightarrow>
     (\<not> starts_with ''#'' (strip raw)
      \<and> (\<exists>a b. strip raw = a @ ''/'' @ b \<and> CHR ''/'' \<notin> set a
             \<and> strip a \<noteq> [] \<and> strip b \<noteq> [] \<and> spec = \<lparr>owner = strip a, repo = strip b\<rparr>))"
proof
  assume p: "read_line raw = Parsed spec"
  let ?l = "strip raw"
  let ?a = "takeWhile (\<lambda>x. x \<noteq> CHR ''/'') ?l"
  let ?b = "drop 1 (dropWhile (\<lambda>x. x \<noteq> CHR ''/'') ?l)"
  from p have c: "\<not> starts_with ''#'' ?l" and sl: "CHR ''/'' \<in> set ?l"
    and ne: "strip ?a \<noteq> []" "strip ?b \<noteq> []" and sp: "spec = \<lparr>owner = strip ?a, repo = strip ?b\<rparr>"
    by (auto simp: read_line_def Let_def split: if_splits)
  from split_first [OF sl] have "?l = ?a @ ''/'' @ ?b" by simp
  moreover have "CHR ''/'' \<notin> set ?a" by (auto dest: set_takeWhileD)
  ultimately show "\<not> starts_with ''#'' ?l
      \<and> (\<exists>a b. ?l = a @ ''/'' @ b \<and> CHR ''/'' \<notin> set a
             \<and> strip a \<noteq> [] \<and> strip b \<noteq> [] \<and> spec = \<lparr>owner = strip a, repo = strip b\<rparr>)"
    using c ne sp by blast
next
  assume "\<not> starts_with ''#'' (strip raw)
      \<and> (\<exists>a b. strip raw = a @ ''/'' @ b \<and> CHR ''/'' \<notin> set a
             \<and> strip a \<noteq> [] \<and> strip b \<noteq> [] \<and> spec = \<lparr>owner = strip a, repo = strip b\<rparr>)"
  then obtain a b where c: "\<not> starts_with ''#'' (strip raw)" and l: "strip raw = a @ ''/'' @ b"
    and a: "CHR ''/'' \<notin> set a" and ne: "strip a \<noteq> []" "strip b \<noteq> []"
    and sp: "spec = \<lparr>owner = strip a, repo = strip b\<rparr>"
    by blast
  from l a have "takeWhile (\<lambda>x. x \<noteq> CHR ''/'') (strip raw) = a
      \<and> drop 1 (dropWhile (\<lambda>x. x \<noteq> CHR ''/'') (strip raw)) = b"
    by (intro split_first_unique) simp_all
  moreover from l have "strip raw \<noteq> []" "CHR ''/'' \<in> set (strip raw)" by simp_all
  ultimately show "read_line raw = Parsed spec"
    using c ne sp by (simp add: read_line_def Let_def)
qed

lemma read_line_Ignored:
  "read_line raw = Ignored \<longleftrightarrow> (strip raw = [] \<or> starts_with ''#'' (strip raw))"
  by (auto simp: read_line_def Let_def)

lemma load_fold:
  "foldl load_step st ls =
     (fst st @ [spec. Parsed spec \<leftarrow> map read_line ls],
      snd st @ [w. Skipped w \<leftarrow> map read_line ls])"
proof (induction ls arbitrary: st)
  case Nil
  then show ?case by simp
next
  case (Cons raw ls)
  have "foldl load_step st (raw # ls) = foldl load_step (load_step st raw) ls"
    by simp
  also have "\<dots> = (fst (load_step st raw) @ [spec. Parsed spec \<leftarrow> map read_line ls],
      snd (load_step st raw) @ [w. Skipped w \<leftarrow> map read_line ls])"
    by (rule Cons.IH)
  also have "\<dots> = (fst st @ [spec. Parsed spec \<leftarrow> map read_line (raw # ls)],
      snd st @ [w. Skipped w \<leftarrow> map read_line (raw # ls)])"
    by (cases "read_line raw") (simp_all add: load_step_def)
  finally show ?case .
qed

text \<open>
  Claim C6, amended. The loader returns, in the order of the lines, one RepoSpec for
  each line that gives one and one warning for each line it skips. A line gives a
  RepoSpec exactly when, stripped, it is no comment and has a slash such that the text
  before the first slash and the text after it are both non-blank; the owner and the
  repo name are these two texts, stripped (the repo name may hold further slashes). A
  blank line or a comment is ignored without a warning; every other line is skipped
  with a warning and gives no RepoSpec.
\<close>

theorem load_repo_list_lines:
  "load_repo_list (Some ls) =
     Inr ([spec. Parsed spec \<leftarrow> map read_line ls], [w. Skipped w \<leftarrow> map read_line ls])
   \<and> (read_line raw = Parsed spec \<longleftrightarrow>
        (\<not> starts_with ''#'' (strip raw)
         \<and> (\<exists>a b. strip raw = a @ ''/'' @ b \<and> CHR ''/'' \<notin> set a
                \<and> strip a \<noteq> [] \<and> strip b \<noteq> [] \<and> spec = \<lparr>owner = strip a, repo = strip b\<rparr>)))
   \<and> (read_line raw = Ignored \<longleftrightarrow> (strip raw = [] \<or> starts_with ''#'' (strip raw)))
   \<and> ((\<exists>w. read_line raw = Skipped w) \<longleftrightarrow>
        (read_line raw \<noteq> Ignored \<and> (\<forall>spec. read_line raw \<noteq> Parsed spec)))"
proof -
  have "(\<exists>w. read_line raw = Skipped w) \<longleftrightarrow>
        (read_line raw \<noteq> Ignored \<and> (\<forall>spec. read_line raw \<noteq> Parsed spec))"
    by (cases "read_line raw") simp_all
  then show ?thesis
    using read_line_Parsed [of raw spec] read_line_Ignored [of raw]
    by (simp add: load_repo_list_def load_fold)
qed

theorem load_repo_list_lines_witness:
  "load_repo_list (Some [''# services'', '' acme / payments-service '', '''', ''nonsense'', ''/x'', ''a/b/c''])
     = Inr ([\<lparr>owner = ''acme'', repo = ''payments-service''\<rparr>, \<lparr>owner = ''a'', repo = ''b/c''\<rparr>],
            [''Skipping invalid line (expected owner/repo): nonsense'',
             ''Skipping invalid line (blank owner or repo): /x''])"
proof -
  let ?ls = "[''# services'', '' acme / payments-service '', '''', ''nonsense'', ''/x'', ''a/b/c'']"
  have r: "map read_line ?ls =
      [Ignored, Parsed \<lparr>owner = ''acme'', repo = ''payments-service''\<rparr>, Ignored,
       Skipped ''Skipping invalid line (expected owner/repo): nonsense'',
       Skipped ''Skipping invalid line (blank owner or repo): /x'',
       Parsed \<lparr>owner = ''a'', repo = ''b/c''\<rparr>]"
    by code_simp
  from load_repo_list_lines [of ?ls]
  show ?thesis unfolding r by simp
qed

section \<open>Dependency inference: no self-loop, no repeated target\<close>

lemma depends_step_inv:
  assumes "snd st = (\<lambda>d. (repo spec, dep_target d)) ` set (fst st)"
    and "distinct (map dep_target (fst st))"
    and "repo spec \<notin> set (map dep_target (fst st))"
  shows "snd (depends_step spec rp rt st env) =
           (\<lambda>d. (repo spec, dep_target d)) ` set (fst (depends_step spec rp rt st env))
         \<and> distinct (map dep_target (fst (depends_step spec rp rt st env)))
         \<and> repo spec \<notin> set (map dep_target (fst (depends_step spec rp rt st env)))"
  using assms by (auto simp: depends_step_def Let_def)

lemma depends_fold_inv:
  assumes "snd st = (\<lambda>d. (repo spec, dep_target d)) ` set (fst st)"
    and "distinct (map dep_target (fst st))"
    and "repo spec \<notin> set (map dep_target (fst st))"
  shows "distinct (map dep_target (fst (foldl (depends_step spec rp rt) st envs)))
         \<and> repo spec \<notin> set (map dep_target (fst (foldl (depends_step spec rp rt) st envs)))"
  using assms
proof (induction envs arbitrary: st)
  case Nil
  then show ?case by simp
next
  case (Cons env envs)
  let ?st = "depends_step spec rp rt st env"
  from depends_step_inv [OF Cons.prems, of rp rt env]
  have a: "snd ?st = (\<lambda>d. (repo spec, dep_target d)) ` set (fst ?st)"
    and b: "distinct (map dep_target (fst ?st))"
    and c: "repo spec \<notin> set (map dep_target (fst ?st))"
    by blast+
  from Cons.IH [OF a b c] show ?case by simp
qed

text \<open>
  Claim C8. For every repository spec and every list of environment variables,
  dependency inference emits no edge whose target is the repository's own name, and no
  two edges with the same target (the pair's other half, the repository, is the same
  for all of them).
\<close>

theorem infer_depends_on_no_self_no_dup:
  "repo spec \<notin> set (map dep_target (infer_depends_on spec envs rp rt))
   \<and> distinct (map dep_target (infer_depends_on spec envs rp rt))"
  unfolding infer_depends_on_def
  using depends_fold_inv [of "([], {})" spec rp rt envs] by simp

theorem infer_depends_on_no_self_no_dup_witness:
  "map dep_target
     (infer_depends_on \<lparr>owner = ''acme'', repo = ''payments-service''\<rparr>
        (map (\<lambda>n. \<lparr>env_name = n, env_confidence = ''medium'', env_evidence = make_evidence None None n\<rparr>)
           [''USERS_SERVICE_URL'', ''PAYMENTS_SERVICE_URL'', ''PORT'', ''USERS_SERVICE_URL'', ''AUTH_DB_SERVICE_URL''])
        None None) = [''users-service'', ''auth-db-service'']
   \<and> ''payments-service'' \<notin> set [''users-service'', ''auth-db-service'']
   \<and> distinct [''users-service'', ''auth-db-service'']"
proof -
  let ?spec = "\<lparr>owner = ''acme'', repo = ''payments-service''\<rparr>"
  let ?envs = "map (\<lambda>n. \<lparr>env_name = n, env_confidence = ''medium'', env_evidence = make_evidence None None n\<rparr>)
           [''USERS_SERVICE_URL'', ''PAYMENTS_SERVICE_URL'', ''PORT'', ''USERS_SERVICE_URL'', ''AUTH_DB_SERVICE_URL'']"
  have e: "map dep_target (infer_depends_on ?spec ?envs None None) = [''users-service'', ''auth-db-service'']"
    by code_simp
  from infer_depends_on_no_self_no_dup [of ?spec ?envs None None]
  show ?thesis unfolding e by simp
qed

section \<open>Stored files: truncation\<close>

lemma truncate_file_of:
  "truncate_file (file_of (p, Some t)) =
     (if t = [] then None
      else if 200000 < length t
      then Some \<lparr>fe_path = p, fe_text = take 200000 t @ TRUNCATED, truncated = True\<rparr>
      else Some \<lparr>fe_path = p, fe_text = t, truncated = False\<rparr>)"
  by (simp add: truncate_file_def file_of_def)

lemma files_build_entry:
  "f_readme (e_files (build_entry spec node)) = truncate_file (file_of (first_present (readme_candidates node)))"
  "f_codeowners (e_files (build_entry spec node)) = truncate_file (file_of (first_present (codeowners_candidates node)))"
  "f_catalog (e_files (build_entry spec node)) = truncate_file (file_of (first_present (catalog_candidates node)))"
  "f_openapi (e_files (build_entry spec node)) = truncate_file (file_of (first_present (openapi_candidates node)))"
  by (simp_all add: build_entry_def Let_def)

text \<open>
  Claim C7. For each of the four file fields of a record (readme, codeowners, catalog,
  openapi) and the text \<open>t\<close> retrieved for it: when \<open>t\<close> is longer than 200,000
  characters, the stored text is the first 200,000 characters of \<open>t\<close> followed by the
  truncation marker, and the field carries \<open>truncated = True\<close>; when \<open>t\<close> is not empty
  and has at most 200,000 characters, the stored text is \<open>t\<close> and no truncation flag
  is set.
\<close>

theorem stored_file_truncated:
  assumes "(sel, cands) \<in> set [(f_readme, readme_candidates), (f_codeowners, codeowners_candidates),
              (f_catalog, catalog_candidates), (f_openapi, openapi_candidates)]"
    and "first_present (cands node) = (p, Some t)"
  shows "(200000 < length t \<longrightarrow>
            sel (e_files (build_entry spec node)) =
              Some \<lparr>fe_path = p, fe_text = take 200000 t @ TRUNCATED, truncated = True\<rparr>)
         \<and> (0 < length t \<and> length t \<le> 200000 \<longrightarrow>
            sel (e_files (build_entry spec node)) =
              Some \<lparr>fe_path = p, fe_text = t, truncated = False\<rparr>)"
  using assms by (auto simp: files_build_entry truncate_file_of)

theorem stored_file_truncated_witness:
  "f_readme (e_files (build_entry \<lparr>owner = ''acme'', repo = ''pay''\<rparr>
       \<lparr>nameWithOwner = Some ''acme/pay'', primaryLanguage = None,
        file_objects = (\<lambda>a. None)
          (''readme_rst'' := Some (Blob (Some (replicate 200001 CHR ''a''))),
           ''codeowners_gh'' := Some (Blob (Some ''* @acme/core'')))\<rparr>))
     = Some \<lparr>fe_path = Some ''README.rst'', fe_text = replicate 200000 CHR ''a'' @ TRUNCATED,
              truncated = True\<rparr>
   \<and> f_codeowners (e_files (build_entry \<lparr>owner = ''acme'', repo = ''pay''\<rparr>
       \<lparr>nameWithOwner = Some ''acme/pay'', primaryLanguage = None,
        file_objects = (\<lambda>a. None)
          (''readme_rst'' := Some (Blob (Some (replicate 200001 CHR ''a''))),
           ''codeowners_gh'' := Some (Blob (Some ''* @acme/core'')))\<rparr>))
     = Some \<lparr>fe_path = Some ''.github/CODEOWNERS'', fe_text = ''* @acme/core'', truncated = False\<rparr>"
proof -
  let ?spec = "\<lparr>owner = ''acme'', repo = ''pay''\<rparr>"
  let ?node = "\<lparr>nameWithOwner = Some ''acme/pay'', primaryLanguage = None,
        file_objects = (\<lambda>a. None)
          (''readme_rst'' := Some (Blob (Some (replicate 200001 CHR ''a''))),
           ''codeowners_gh'' := Some (Blob (Some ''* @acme/core'')))\<rparr>"
  have r: "first_present (readme_candidates ?node) = (Some ''README.rst'', Some (replicate 200001 CHR ''a''))"
    by (simp add: readme_candidates_def extract_blob_text_def)
  have c: "first_present (codeowners_candidates ?node) = (Some ''.github/CODEOWNERS'', Some ''* @acme/core'')"
    by (simp add: codeowners_candidates_def extract_blob_text_def)
  from stored_file_truncated [of f_readme readme_candidates ?node _ _ ?spec, OF _ r]
  have 1: "f_readme (e_files (build_entry ?spec ?node))
     = Some \<lparr>fe_path = Some ''README.rst'', fe_text = replicate 200000 CHR ''a'' @ TRUNCATED,
              truncated = True\<rparr>"
    by simp
  from stored_file_truncated [of f_codeowners codeowners_candidates ?node _ _ ?spec, OF _ c]
  have 2: "f_codeowners (e_files (build_entry ?spec ?node))
     = Some \<lparr>fe_path = Some ''.github/CODEOWNERS'', fe_text = ''* @acme/core'', truncated = False\<rparr>"
    by simp
  from 1 2 show ?thesis by (rule conjI)
qed

section \<open>API client: the rate-limit path\<close>

lemma py_int_1000: "py_int ''1000'' = Some 1000"
  by code_simp

lemma str_nat_length: "0 < k \<Longrightarrow> n < 10 ^ k \<Longrightarrow> length (str_nat n) \<le> k"
proof (induction k arbitrary: n)
  case 0
  then show ?case by simp
next
  case (Suc k)
  show ?case
  proof (cases "n < 10")
    case True
    then show ?thesis by (subst str_nat.simps) simp
  next
    case False
    with Suc.prems have k: "0 < k" by (cases k) simp_all
    from Suc.prems have "n div 10 < 10 ^ k" by (simp add: less_mult_imp_div_less mult.commute)
    from Suc.IH [OF k this] False show ?thesis by (subst str_nat.simps) simp
  qed
qed

lemma sleep_digits:
  assumes "s \<le> (9223372036 :: int)"
  shows "\<not> 4300 < length (str_nat (nat s))"
proof -
  from assms have "nat s < 10 ^ 10" by simp
  from str_nat_length [OF _ this] show ?thesis by simp
qed

lemma handle_rate_limit_sleeps:
  assumes "headers ''X-RateLimit-Remaining'' = Some ''0''"
    and "headers ''X-RateLimit-Reset'' = Some reset"
    and "py_int reset = Some reset_ts"
    and "max 1 (reset_ts - time_now m + 1) \<le> 9223372036"
    and "max 1 (reset_ts - time_now m + 1) \<le> max 3 (sleep_max m)"
  shows "handle_rate_limit 403 headers m = Inr (Some (max 1 (reset_ts - time_now m + 1)))"
proof -
  define s where "s = max 1 (reset_ts - time_now m + 1)"
  from assms(3) have r: "reset \<noteq> []"
    by (auto simp: py_int_def int_strip_def)
  from assms(4) have d: "\<not> 4300 < length (str_nat (nat s))"
    unfolding s_def by (rule sleep_digits)
  from assms(4,5) have "\<not> 9223372036 < s" and "\<not> max 3 (sleep_max m) < s"
    unfolding s_def by arith+
  then have p: "py_sleep m s = None"
    by (simp only: py_sleep_def if_False)
  have "handle_rate_limit 403 headers m =
      (case py_sleep m s of Some e \<Rightarrow> Inl e | None \<Rightarrow> Inr (Some s))"
    using assms(1-3) r d unfolding s_def
    by (simp add: handle_rate_limit_def Let_def del: str_nat.simps)
  with p show ?thesis by (simp add: s_def)
qed

text \<open>
  Claim C3, as stated, fails: a rate-limited attempt uses up one of the three attempts.
  After three rate-limited responses the client returns \<open>failed\<close> and has made three
  requests; it never makes the fourth, which would have succeeded.
\<close>

theorem rate_limited_attempts_exhaust:
  "gh_post_json
     (replies [Response 403 [''X-RateLimit-Remaining'' \<mapsto> ''0'', ''X-RateLimit-Reset'' \<mapsto> ''1000''] None,
               Response 403 [''X-RateLimit-Remaining'' \<mapsto> ''0'', ''X-RateLimit-Reset'' \<mapsto> ''1000''] None,
               Response 403 [''X-RateLimit-Remaining'' \<mapsto> ''0'', ''X-RateLimit-Reset'' \<mapsto> ''1000''] None,
               Response 200 Map.empty (Some NotDict)])
     (at_time 2000)
   = Inr \<lparr>payload = None, err = Some ''failed'', slept = [1, 1, 1], requests = 3\<rparr>"
proof -
  let ?h = "[''X-RateLimit-Remaining'' \<mapsto> ''0'', ''X-RateLimit-Reset'' \<mapsto> ''1000'']"
  have h: "handle_rate_limit 403 ?h (at_time 2000 r) = Inr (Some 1)" for r
    using handle_rate_limit_sleeps [of ?h "''1000''" 1000 "at_time 2000 r"]
    by (simp add: py_int_1000 at_time_def)
  show ?thesis
    by (simp add: gh_post_json_def replies_def h)
qed

text \<open>
  Claim C3, amended. When an attempt gets HTTP 403 with the rate-limit-remaining header
  equal to \<open>0\<close> and a reset timestamp that is an integer, and the sleep is one the
  interpreter and the operating system accept, the client sleeps
  \<open>max 1 (reset - now + 1)\<close> seconds, which is one second when the reset time is not in
  the future, and goes on with the next attempt of the loop: the rate-limited attempt
  is one of the three, and after a rate-limited last attempt the result is \<open>failed\<close>.
\<close>

theorem rate_limit_consumes_attempt:
  assumes "net req = Response 403 headers body"
    and "headers ''X-RateLimit-Remaining'' = Some ''0''"
    and "headers ''X-RateLimit-Reset'' = Some reset"
    and "py_int reset = Some reset_ts"
    and "max 1 (reset_ts - time_now (clock req) + 1) \<le> 9223372036"
    and "max 1 (reset_ts - time_now (clock req) + 1) \<le> max 3 (sleep_max (clock req))"
  shows "gh_attempts net clock req sl (attempt # rest) =
           gh_attempts net clock (Suc req) (sl @ [max 1 (reset_ts - time_now (clock req) + 1)]) rest
     \<and> (reset_ts \<le> time_now (clock req) \<longrightarrow> max 1 (reset_ts - time_now (clock req) + 1) = 1)
     \<and> gh_attempts net clock req sl [attempt] =
           Inr \<lparr>payload = None, err = Some ''failed'',
                slept = sl @ [max 1 (reset_ts - time_now (clock req) + 1)], requests = Suc req\<rparr>"
proof -
  note h = handle_rate_limit_sleeps [OF assms(2-6)]
  have step: "gh_attempts net clock req sl (attempt # rest') =
           gh_attempts net clock (Suc req) (sl @ [max 1 (reset_ts - time_now (clock req) + 1)]) rest'"
    for rest'
    using assms(1,2) h by simp
  from step [of rest] step [of "[]"] show ?thesis by simp
qed

theorem rate_limit_consumes_attempt_witness:
  "gh_attempts
     (replies [Response 403 [''X-RateLimit-Remaining'' \<mapsto> ''0'', ''X-RateLimit-Reset'' \<mapsto> ''1000''] None,
               Response 200 Map.empty (Some NotDict)])
     (at_time 2000) 0 [] [2]
   = Inr \<lparr>payload = None, err = Some ''failed'', slept = [1], requests = 1\<rparr>
   \<and> gh_post_json
     (replies [Response 403 [''X-RateLimit-Remaining'' \<mapsto> ''0'', ''X-RateLimit-Reset'' \<mapsto> ''1000''] None,
               Response 200 Map.empty (Some NotDict)])
     (at_time 990)
   = Inr \<lparr>payload = Some NotDict, err = None, slept = [11], requests = 2\<rparr>"
proof -
  let ?h = "[''X-RateLimit-Remaining'' \<mapsto> ''0'', ''X-RateLimit-Reset'' \<mapsto> ''1000'']"
  let ?net = "replies [Response 403 ?h None, Response 200 Map.empty (Some NotDict)]"
  have n: "?net 0 = Response 403 ?h None"
    by (simp add: replies_def)
  have r: "?h ''X-RateLimit-Remaining'' = Some ''0''" "?h ''X-RateLimit-Reset'' = Some ''1000''"
    by simp_all
  have a: "max 1 (1000 - time_now (at_time 2000 0) + 1) \<le> 9223372036"
    "max 1 (1000 - time_now (at_time 2000 0) + 1) \<le> max 3 (sleep_max (at_time 2000 0))"
    by (simp_all add: at_time_def)
  have b: "max 1 (1000 - time_now (at_time 990 0) + 1) \<le> 9223372036"
    "max 1 (1000 - time_now (at_time 990 0) + 1) \<le> max 3 (sleep_max (at_time 990 0))"
    by (simp_all add: at_time_def)
  from rate_limit_consumes_attempt [where net = ?net and req = 0 and headers = ?h and clock = "at_time 2000"
      and sl = "[]" and attempt = 2 and rest = "[]", OF n r py_int_1000 a]
  have 1: "gh_attempts ?net (at_time 2000) 0 [] [2]
      = Inr \<lparr>payload = None, err = Some ''failed'', slept = [1], requests = 1\<rparr>"
    by (simp add: at_time_def)
  from rate_limit_consumes_attempt [where net = ?net and req = 0 and headers = ?h and clock = "at_time 990"
      and sl = "[]" and attempt = 0 and rest = "[1, 2]", OF n r py_int_1000 b]
  have "gh_post_json ?net (at_time 990) = gh_attempts ?net (at_time 990) 1 [11] [1, 2]"
    by (simp add: gh_post_json_def at_time_def)
  then have 2: "gh_post_json ?net (at_time 990)
      = Inr \<lparr>payload = Some NotDict, err = None, slept = [11], requests = 2\<rparr>"
    by (simp add: replies_def)
  from 1 2 show ?thesis by (rule conjI)
qed

text \<open>
  Beyond the amended claim: a sleep of more than 9223372036 seconds (and of at most
  4300 digits) is not slept. \<^verbatim>\<open>time.sleep\<close> raises \<^verbatim>\<open>OverflowError\<close>, which nothing
  catches, and the exception leaves \<^verbatim>\<open>gh_post_json\<close>.
\<close>

lemma rate_limit_sleep_overflow:
  assumes "net req = Response 403 headers body"
    and "headers ''X-RateLimit-Remaining'' = Some ''0''"
    and "headers ''X-RateLimit-Reset'' = Some reset"
    and "py_int reset = Some reset_ts"
    and "9223372036 < reset_ts - time_now (clock req) + 1"
    and "length (str_nat (nat (reset_ts - time_now (clock req) + 1))) \<le> 4300"
  shows "gh_attempts net clock req sl (attempt # rest) = Inl OverflowError"
proof -
  define s where "s = max 1 (reset_ts - time_now (clock req) + 1)"
  from assms(4) have r: "reset \<noteq> []"
    by (auto simp: py_int_def int_strip_def)
  from assms(5) have e: "s = reset_ts - time_now (clock req) + 1"
    unfolding s_def by simp
  from assms(6) have d: "\<not> 4300 < length (str_nat (nat s))"
    unfolding e by simp
  from assms(5) have "9223372036 < s"
    unfolding e by arith
  then have p: "py_sleep (clock req) s = Some OverflowError"
    by (simp only: py_sleep_def if_True)
  have "handle_rate_limit 403 headers (clock req) =
      (case py_sleep (clock req) s of Some e \<Rightarrow> Inl e | None \<Rightarrow> Inr (Some s))"
    using assms(2-4) r d unfolding s_def
    by (simp add: handle_rate_limit_def Let_def del: str_nat.simps)
  with p have "handle_rate_limit 403 headers (clock req) = Inl OverflowError"
    by simp
  with assms(1) show ?thesis by simp
qed


section \<open>API client: result codes\<close>





section \<open>Derived facts come from the untruncated text\<close>








section \<open>Aggregator: one record per spec\<close>

lemma error_fold:
  "foldl (\<lambda>out spec. out(full_name spec \<mapsto> ErrorRecord (full_name spec) msg)) out0 specs k =
     (if k \<in> full_name ` set specs then Some (ErrorRecord k msg) else out0 k)"
  by (induction specs arbitrary: out0) auto

lemma alias_step_key:
  "alias_step eba dat out a k =
     (if k = full_name (snd a) then alias_step eba dat out a (full_name (snd a)) else out k)"
  by (auto simp: alias_step_def Let_def split: option.splits)

lemma alias_step_own:
  "(\<exists>e. alias_step eba dat out a (full_name (snd a)) = Some (ErrorRecord (full_name (snd a)) e))
   \<or> (\<exists>node. alias_step eba dat out a (full_name (snd a)) = Some (Entry (build_entry (snd a) node)))"
  by (auto simp: alias_step_def Let_def split: option.splits)

lemma alias_step_dom:
  "dom (alias_step eba dat out a) = insert (full_name (snd a)) (dom out)"
  by (auto simp: alias_step_def Let_def split: option.splits)

lemma alias_fold_dom:
  "dom (foldl (alias_step eba dat) out0 as) = dom out0 \<union> full_name ` snd ` set as"
  by (induction as arbitrary: out0) (simp_all add: alias_step_dom)

lemma alias_fold_values:
  assumes "\<And>k r. out0 k = Some r \<Longrightarrow> P k r"
    and "\<And>a out r. a \<in> set as \<Longrightarrow> alias_step eba dat out a (full_name (snd a)) = Some r
           \<Longrightarrow> P (full_name (snd a)) r"
    and "foldl (alias_step eba dat) out0 as k = Some r"
  shows "P k r"
  using assms
proof (induction as arbitrary: out0)
  case Nil
  then show ?case by simp
next
  case (Cons a as)
  let ?out = "alias_step eba dat out0 a"
  have 1: "P k' r'" if "?out k' = Some r'" for k' r'
  proof (cases "k' = full_name (snd a)")
    case True
    with that Cons.prems(2) [of a out0 r'] show ?thesis by simp
  next
    case False
    with that alias_step_key [of eba dat out0 a k'] have "out0 k' = Some r'" by simp
    then show ?thesis by (rule Cons.prems(1))
  qed
  have 2: "P (full_name (snd b)) r'"
    if "b \<in> set as" "alias_step eba dat out b (full_name (snd b)) = Some r'" for b out r'
    using that Cons.prems(2) [of b out r'] by simp
  from Cons.prems(3) have 3: "foldl (alias_step eba dat) ?out as k = Some r" by simp
  show ?case
    by (rule Cons.IH [OF 1 2 3])
qed

lemma snd_aliases_of: "map snd (aliases_of specs) = specs"
  by (simp add: aliases_of_def o_def map_nth)

lemma bundle_of_dict:
  assumes "err res = None \<or> err res = Some []" and "payload res = Some (Dict p)"
  shows "bundle_of res specs =
     foldl (alias_step (foldl error_step Map.empty (errors p)) (data p)) Map.empty (aliases_of specs)"
  using assms by (simp add: bundle_of_def)

lemma bundle_of_error:
  assumes "(err res \<noteq> None \<and> err res \<noteq> Some []) \<or> (\<forall>p. payload res \<noteq> Some (Dict p))"
  shows "bundle_of res specs =
     foldl (\<lambda>out spec. out(full_name spec \<mapsto> ErrorRecord (full_name spec)
              (case err res of None \<Rightarrow> ''unknown'' | Some e \<Rightarrow> if e = [] then ''unknown'' else e)))
       Map.empty specs"
proof (cases "err res = None \<or> err res = Some []")
  case False
  then obtain e where "err res = Some e" "e \<noteq> []" by auto
  then show ?thesis by (simp add: bundle_of_def)
next
  case True
  with assms have np: "\<forall>p. payload res \<noteq> Some (Dict p)" by auto
  show ?thesis
  proof (cases "payload res")
    case None
    with True show ?thesis by (simp add: bundle_of_def)
  next
    case (Some d)
    with np have "d = NotDict" by (cases d) simp_all
    with Some True show ?thesis by (simp add: bundle_of_def)
  qed
qed

lemma bundle_of_failed:
  assumes "spec \<in> set specs"
    and "(err res \<noteq> None \<and> err res \<noteq> Some []) \<or> (\<forall>p. payload res \<noteq> Some (Dict p))"
  shows "bundle_of res specs (full_name spec) =
     Some (ErrorRecord (full_name spec)
             (case err res of None \<Rightarrow> ''unknown'' | Some e \<Rightarrow> if e = [] then ''unknown'' else e))"
  using assms(1) by (simp add: bundle_of_error [OF assms(2)] error_fold)

lemma bundle_of_records:
  assumes "spec \<in> set specs"
  shows "\<exists>r. bundle_of res specs (full_name spec) = Some r
     \<and> ((\<exists>e. r = ErrorRecord (full_name spec) e)
         \<or> (\<exists>spec' node. spec' \<in> set specs \<and> full_name spec' = full_name spec
               \<and> r = Entry (build_entry spec' node)))"
proof (cases "(err res \<noteq> None \<and> err res \<noteq> Some []) \<or> (\<forall>p. payload res \<noteq> Some (Dict p))")
  case True
  from bundle_of_failed [OF assms True] show ?thesis by simp
next
  case False
  then obtain p where e: "err res = None \<or> err res = Some []" and p: "payload res = Some (Dict p)"
    by auto
  let ?eba = "foldl error_step Map.empty (errors p)"
  let ?out = "foldl (alias_step ?eba (data p)) Map.empty (aliases_of specs)"
  let ?P = "\<lambda>k r. (\<exists>e. r = ErrorRecord k e)
         \<or> (\<exists>spec' node. spec' \<in> set specs \<and> full_name spec' = k \<and> r = Entry (build_entry spec' node))"
  have b: "bundle_of res specs = ?out"
    by (rule bundle_of_dict [OF e p])
  have s: "snd ` set (aliases_of specs) = set specs"
    using snd_aliases_of [of specs] by (metis set_map)
  have "dom ?out = full_name ` set specs"
    by (simp add: alias_fold_dom s)
  with assms obtain r where r: "?out (full_name spec) = Some r"
    by blast
  have own: "?P (full_name (snd a)) r'"
    if "a \<in> set (aliases_of specs)" "alias_step ?eba (data p) out a (full_name (snd a)) = Some r'"
    for a out r'
  proof -
    from that(1) s have "snd a \<in> set specs" by blast
    with alias_step_own [of ?eba "data p" out a] that(2) show ?thesis by auto
  qed
  have "?P (full_name spec) r"
    by (rule alias_fold_values [where P = ?P, OF _ own r]) simp_all
  with r show ?thesis unfolding b by blast
qed

lemma add_spec_fold:
  "repos (foldl (add_spec by_repo) res chunk) = repos res @ map (entry_for by_repo) chunk"
  by (induction chunk arbitrary: res) (simp_all add: add_spec_def Let_def)

lemma batches_invariant:
  "(\<forall>k. gh_post_json (net k) (clock k) = Inr (g k)) \<Longrightarrow>
   (\<forall>k j. k * B \<le> j \<longrightarrow> j < k * B + B \<longrightarrow> j < length specs \<longrightarrow>
        G j (entry_for (bundle_of (g k) (take B (drop (k * B) specs))) (specs ! j))) \<Longrightarrow>
   0 < B \<Longrightarrow> n = length specs \<Longrightarrow> i = k * B \<Longrightarrow> length (repos res) = min i n \<Longrightarrow>
     (\<forall>j < length (repos res). G j (repos res ! j)) \<Longrightarrow>
     \<exists>out. batches net clock B specs k res (range_from i n B) = Inr out
       \<and> length (repos out) = n \<and> (\<forall>j < n. G j (repos out ! j))"
proof (induction i n B arbitrary: k res rule: range_from.induct)
  case (1 i n B)
  note ok = \<open>\<forall>k. gh_post_json (net k) (clock k) = Inr (g k)\<close>
  note G = \<open>\<forall>k j. k * B \<le> j \<longrightarrow> j < k * B + B \<longrightarrow> j < length specs \<longrightarrow>
        G j (entry_for (bundle_of (g k) (take B (drop (k * B) specs))) (specs ! j))\<close>
  note B = \<open>0 < B\<close> and n = \<open>n = length specs\<close> and i = \<open>i = k * B\<close>
    and len = \<open>length (repos res) = min i n\<close>
    and inv = \<open>\<forall>j < length (repos res). G j (repos res ! j)\<close>
  show ?case
  proof (cases "i < n")
    case False
    then have r: "range_from i n B = []"
      by (subst range_from.simps) simp
    from False len have "length (repos res) = n" by simp
    with inv show ?thesis unfolding r by simp
  next
    case True
    let ?chunk = "take B (drop i specs)"
    let ?by = "bundle_of (g k) ?chunk"
    let ?res = "foldl (add_spec ?by) res ?chunk"
    from True B have r: "range_from i n B = i # range_from (i + B) n B"
      by (subst range_from.simps) simp
    have b: "batches net clock B specs k res (i # range_from (i + B) n B)
        = batches net clock B specs (Suc k) ?res (range_from (i + B) n B)"
      using ok by (simp add: Let_def get_repo_bundle_graphql_def)
    from True len have li: "length (repos res) = i" by simp
    have lc: "length ?chunk = min B (n - i)"
      using n by simp
    have rr: "repos ?res = repos res @ map (entry_for ?by) ?chunk"
      by (rule add_spec_fold)
    from li lc True have len': "length (repos ?res) = min (i + B) n"
      by (simp add: rr)
    have inv': "\<forall>j < length (repos ?res). G j (repos ?res ! j)"
    proof (intro allI impI)
      fix j assume j: "j < length (repos ?res)"
      show "G j (repos ?res ! j)"
      proof (cases "j < i")
        case True
        with li have "repos ?res ! j = repos res ! j"
          by (simp add: rr nth_append)
        with inv True li show ?thesis by simp
      next
        case False
        with j len' have ji: "i \<le> j" and jb: "j < i + B" and jn: "j < n" by simp_all
        from ji jb jn have "j - i < min B (n - i)" by arith
        with lc have jc: "j - i < length ?chunk" by simp
        from False li have "repos ?res ! j = map (entry_for ?by) ?chunk ! (j - i)"
          by (simp add: rr nth_append)
        also from jc have "\<dots> = entry_for ?by (?chunk ! (j - i))"
          by (rule nth_map)
        also from ji jb jn n have "?chunk ! (j - i) = specs ! j"
          by simp
        finally have e: "repos ?res ! j = entry_for ?by (specs ! j)" .
        from ji jb jn n i have "k * B \<le> j" "j < k * B + B" "j < length specs"
          by simp_all
        with G have "G j (entry_for (bundle_of (g k) (take B (drop (k * B) specs))) (specs ! j))"
          by blast
        then have "G j (entry_for ?by (specs ! j))"
          unfolding i .
        then show ?thesis
          by (simp only: e)
      qed
    qed
    from i have i': "i + B = Suc k * B" by simp
    from True B have c: "i < n \<and> 0 < B" by simp
    from "1.IH" [OF c ok G B n i' len' inv']
    show ?thesis unfolding r b .
  qed
qed

lemma chunk_member:
  assumes "k * B \<le> j" and "j < k * B + B" and "j < length specs"
  shows "specs ! j \<in> set (take B (drop (k * B) specs))"
proof -
  let ?chunk = "take B (drop (k * B) specs)"
  from assms have "j - k * B < min B (length specs - k * B)" by arith
  then have l: "j - k * B < length ?chunk" by simp
  from assms have "?chunk ! (j - k * B) = specs ! j" by simp
  with l show ?thesis by (metis nth_mem)
qed

lemma chunk_index:
  assumes "k * B \<le> j" and "j < k * B + B"
  shows "j div B = (k::nat)"
  using assms by (intro div_nat_eqI) (simp_all add: mult.commute)

text \<open>
  Claim C1 at a negative batch size. With \<^verbatim>\<open>GITHUB_GRAPHQL_BATCH_SIZE=-1\<close> the range
  of chunk starts is empty, the loop body never runs, and the document is written with
  no record at all, for a list of two valid repositories and whatever the network
  answers. (With the batch size \<open>0\<close>, \<^verbatim>\<open>range\<close> raises and nothing is written.)
\<close>

theorem negative_batch_size_drops_all:
  "main (Some [''acme/payments-service'', ''acme/users-service'']) (Some ''token'') (Some ''-1'') net clock
     = Inr (\<lparr>repos = [], dependency_edges = []\<rparr>, [])"
proof -
  have l: "load_repo_list (Some [''acme/payments-service'', ''acme/users-service''])
      = Inr ([\<lparr>owner = ''acme'', repo = ''payments-service''\<rparr>,
              \<lparr>owner = ''acme'', repo = ''users-service''\<rparr>], [])"
    by code_simp
  have t: "strip ''token'' = ''token''"
    by code_simp
  have p: "py_int ''-1'' = Some (- 1)"
    by code_simp
  show ?thesis
    by (simp add: main_def l t p py_range_def)
qed

text \<open>
  For every positive batch size the property of claim C1 holds. When the list file
  gives the specs, the token is set, the batch size is a positive integer and no
  request ends in an exception, the run
  writes a document whose \<open>repos\<close> list is as long as the list of specs, and whose
  \<open>j\<close>-th record is the one the normalizer stored under the full name of the \<open>j\<close>-th
  spec for the batch that holds it: an error record with that full name, or the entry
  built for a spec of that full name. When the request of the batch failed (an error
  code, or a payload that is no dict), it is the error record with the error code, or
  \<open>unknown\<close>.
\<close>

theorem main_one_record_per_spec:
  assumes "load_repo_list file = Inr (specs, warns)" and "specs \<noteq> []"
    and "strip (case token_env of None \<Rightarrow> [] | Some t \<Rightarrow> t) \<noteq> []"
    and "py_int (case batch_env of None \<Rightarrow> ''20'' | Some b \<Rightarrow> b) = Some bs" and "0 < bs"
    and "\<forall>k. gh_post_json (net k) (clock k) = Inr (g k)"
  shows "\<exists>res. main file token_env batch_env net clock = Inr (res, warns)
     \<and> length (repos res) = length specs
     \<and> (\<forall>j < length specs.
          bundle_of (g (j div nat bs))
              (take (nat bs) (drop (j div nat bs * nat bs) specs)) (full_name (specs ! j))
            = Some (repos res ! j)
          \<and> ((\<exists>e. repos res ! j = ErrorRecord (full_name (specs ! j)) e)
              \<or> (\<exists>spec node. spec \<in> set specs \<and> full_name spec = full_name (specs ! j)
                    \<and> repos res ! j = Entry (build_entry spec node)))
          \<and> ((err (g (j div nat bs)) \<noteq> None
                \<and> err (g (j div nat bs)) \<noteq> Some [])
              \<or> (\<forall>p. payload (g (j div nat bs)) \<noteq> Some (Dict p))
              \<longrightarrow> repos res ! j = ErrorRecord (full_name (specs ! j))
                    (case err (g (j div nat bs)) of
                       None \<Rightarrow> ''unknown''
                     | Some e \<Rightarrow> if e = [] then ''unknown'' else e)))"
proof -
  let ?B = "nat bs"
  let ?r = "\<lambda>j. g (j div ?B)"
  define G where "G = (\<lambda>j r.
          bundle_of (?r j) (take ?B (drop (j div ?B * ?B) specs)) (full_name (specs ! j)) = Some r
          \<and> ((\<exists>e. r = ErrorRecord (full_name (specs ! j)) e)
              \<or> (\<exists>spec node. spec \<in> set specs \<and> full_name spec = full_name (specs ! j)
                    \<and> r = Entry (build_entry spec node)))
          \<and> ((err (?r j) \<noteq> None \<and> err (?r j) \<noteq> Some []) \<or> (\<forall>p. payload (?r j) \<noteq> Some (Dict p))
              \<longrightarrow> r = ErrorRecord (full_name (specs ! j))
                    (case err (?r j) of None \<Rightarrow> ''unknown'' | Some e \<Rightarrow> if e = [] then ''unknown'' else e)))"
  from assms(5) have B: "0 < ?B" by simp
  have Gk: "\<forall>k j. k * ?B \<le> j \<longrightarrow> j < k * ?B + ?B \<longrightarrow> j < length specs \<longrightarrow>
        G j (entry_for (bundle_of (g k) (take ?B (drop (k * ?B) specs))) (specs ! j))"
  proof (intro allI impI)
    fix k j assume kj: "k * ?B \<le> j" "j < k * ?B + ?B" "j < length specs"
    let ?chunk = "take ?B (drop (k * ?B) specs)"
    let ?g = "g k"
    let ?by = "bundle_of (g k) ?chunk"
    from chunk_index [OF kj(1,2)] have d: "j div ?B = k" .
    from chunk_member [OF kj] have m: "specs ! j \<in> set ?chunk" .
    from bundle_of_records [OF m, of ?g] obtain r
      where r: "bundle_of ?g ?chunk (full_name (specs ! j)) = Some r"
        and shape: "(\<exists>e. r = ErrorRecord (full_name (specs ! j)) e)
         \<or> (\<exists>spec' node. spec' \<in> set ?chunk \<and> full_name spec' = full_name (specs ! j)
               \<and> r = Entry (build_entry spec' node))"
      by (elim exE conjE)
    from r have e: "entry_for ?by (specs ! j) = r"
      by (simp add: entry_for_def)
    have sub: "spec' \<in> set specs" if "spec' \<in> set ?chunk" for spec'
      using that by (meson in_set_takeD in_set_dropD)
    from shape have shape': "(\<exists>e. r = ErrorRecord (full_name (specs ! j)) e)
         \<or> (\<exists>spec node. spec \<in> set specs \<and> full_name spec = full_name (specs ! j)
               \<and> r = Entry (build_entry spec node))"
    proof
      assume "\<exists>e. r = ErrorRecord (full_name (specs ! j)) e"
      then show ?thesis by (rule disjI1)
    next
      assume "\<exists>spec' node. spec' \<in> set ?chunk \<and> full_name spec' = full_name (specs ! j)
               \<and> r = Entry (build_entry spec' node)"
      then obtain spec' node where "spec' \<in> set ?chunk" "full_name spec' = full_name (specs ! j)"
        "r = Entry (build_entry spec' node)" by (elim exE conjE)
      with sub [of spec'] have "\<exists>spec node. spec \<in> set specs \<and> full_name spec = full_name (specs ! j)
               \<and> r = Entry (build_entry spec node)"
        by (intro exI [of _ spec'] exI [of _ node]) simp
      then show ?thesis by (rule disjI2)
    qed
    have failed: "(err ?g \<noteq> None \<and> err ?g \<noteq> Some []) \<or> (\<forall>p. payload ?g \<noteq> Some (Dict p))
       \<longrightarrow> r = ErrorRecord (full_name (specs ! j))
                    (case err ?g of None \<Rightarrow> ''unknown'' | Some e \<Rightarrow> if e = [] then ''unknown'' else e)"
    proof
      assume f: "(err ?g \<noteq> None \<and> err ?g \<noteq> Some []) \<or> (\<forall>p. payload ?g \<noteq> Some (Dict p))"
      from bundle_of_failed [OF m f] r
      show "r = ErrorRecord (full_name (specs ! j))
                    (case err ?g of None \<Rightarrow> ''unknown'' | Some e \<Rightarrow> if e = [] then ''unknown'' else e)"
        by simp
    qed
    show "G j (entry_for ?by (specs ! j))"
      unfolding G_def e d
      by (intro conjI) (rule r, rule shape', rule failed)
  qed
  have init: "length (repos \<lparr>repos = [], dependency_edges = []\<rparr>) = min 0 (length specs)"
    "\<forall>j < length (repos \<lparr>repos = [], dependency_edges = []\<rparr>).
        G j (repos \<lparr>repos = [], dependency_edges = []\<rparr> ! j)"
    by simp_all
  have z: "(0::nat) = 0 * ?B" by simp
  from batches_invariant [where G = G and k = 0 and i = 0 and n = "length specs"
      and res = "\<lparr>repos = [], dependency_edges = []\<rparr>", OF assms(6) Gk B refl z init]
  obtain out where b: "batches net clock ?B specs 0 \<lparr>repos = [], dependency_edges = []\<rparr>
                (range_from 0 (length specs) ?B) = Inr out"
    and len: "length (repos out) = length specs"
    and inv: "\<forall>j < length specs. G j (repos out ! j)"
    by (elim exE conjE)
  from assms(1-5) b have m: "main file token_env batch_env net clock = Inr (out, warns)"
    by (simp add: main_def py_range_def)
  from inv have inv': "\<forall>j < length specs.
          bundle_of (?r j) (take ?B (drop (j div ?B * ?B) specs)) (full_name (specs ! j))
            = Some (repos out ! j)
          \<and> ((\<exists>e. repos out ! j = ErrorRecord (full_name (specs ! j)) e)
              \<or> (\<exists>spec node. spec \<in> set specs \<and> full_name spec = full_name (specs ! j)
                    \<and> repos out ! j = Entry (build_entry spec node)))
          \<and> ((err (?r j) \<noteq> None \<and> err (?r j) \<noteq> Some []) \<or> (\<forall>p. payload (?r j) \<noteq> Some (Dict p))
              \<longrightarrow> repos out ! j = ErrorRecord (full_name (specs ! j))
                    (case err (?r j) of None \<Rightarrow> ''unknown'' | Some e \<Rightarrow> if e = [] then ''unknown'' else e))"
    unfolding G_def .
  show ?thesis
    by (intro exI [of _ out] conjI) (rule m, rule len, rule inv')
qed

theorem main_one_record_per_spec_witness:
  "\<exists>res. main (Some [''acme/pay'', ''a/b'', ''acme/pay'']) (Some ''token'') (Some ''2'')
            (\<lambda>k. replies []) (\<lambda>k. at_time 0) = Inr (res, [])
     \<and> length (repos res) = 3
     \<and> repos res ! 2 = ErrorRecord ''acme/pay'' ''network_error''"
proof -
  let ?s1 = "\<lparr>owner = ''acme'', repo = ''pay''\<rparr>"
  let ?s2 = "\<lparr>owner = ''a'', repo = ''b''\<rparr>"
  let ?specs = "[?s1, ?s2, ?s1]"
  let ?g = "\<lparr>payload = None, err = Some ''network_error'', slept = [1, 2], requests = 3\<rparr>"
  have l: "load_repo_list (Some [''acme/pay'', ''a/b'', ''acme/pay'']) = Inr (?specs, [])"
    by code_simp
  have n: "?specs \<noteq> []"
    by simp
  have t: "strip (case Some ''token'' of None \<Rightarrow> [] | Some t \<Rightarrow> t) \<noteq> []"
    by code_simp
  have p: "py_int (case Some ''2'' of None \<Rightarrow> ''20'' | Some b \<Rightarrow> b) = Some 2"
    by code_simp
  have g: "\<forall>k :: nat. gh_post_json (replies []) (at_time 0) = Inr ?g"
    by (simp add: gh_post_json_def replies_def)
  have e: "err ?g = Some ''network_error''"
    by simp
  have z: "(0::int) < 2"
    by simp
  have f: "full_name ?s1 = ''acme/pay''"
    by (simp add: full_name_def)
  from main_one_record_per_spec [where net = "\<lambda>k. replies []" and clock = "\<lambda>k. at_time 0"
      and g = "\<lambda>k. ?g", OF l n t p z g]
  obtain res where m: "main (Some [''acme/pay'', ''a/b'', ''acme/pay'']) (Some ''token'') (Some ''2'')
            (\<lambda>k. replies []) (\<lambda>k. at_time 0) = Inr (res, [])"
    and len: "length (repos res) = length ?specs"
    and all: "\<forall>j < length ?specs.
          bundle_of ?g (take (nat 2) (drop (j div nat 2 * nat 2) ?specs)) (full_name (?specs ! j))
            = Some (repos res ! j)
          \<and> ((\<exists>e. repos res ! j = ErrorRecord (full_name (?specs ! j)) e)
              \<or> (\<exists>spec node. spec \<in> set ?specs \<and> full_name spec = full_name (?specs ! j)
                    \<and> repos res ! j = Entry (build_entry spec node)))
          \<and> ((err ?g \<noteq> None \<and> err ?g \<noteq> Some []) \<or> (\<forall>p. payload ?g \<noteq> Some (Dict p))
              \<longrightarrow> repos res ! j = ErrorRecord (full_name (?specs ! j))
                    (case err ?g of None \<Rightarrow> ''unknown'' | Some e \<Rightarrow> if e = [] then ''unknown'' else e))"
    by auto
  from all have "(err ?g \<noteq> None \<and> err ?g \<noteq> Some []) \<or> (\<forall>p. payload ?g \<noteq> Some (Dict p))
              \<longrightarrow> repos res ! 2 = ErrorRecord (full_name (?specs ! 2))
                    (case err ?g of None \<Rightarrow> ''unknown'' | Some e \<Rightarrow> if e = [] then ''unknown'' else e)"
    by simp
  then have r: "repos res ! 2 = ErrorRecord ''acme/pay'' ''network_error''"
    by (simp add: e f)
  from m len r show ?thesis by auto
qed

end
